theory Spec2Isabelle
  imports Complex_Main
begin

section \<open>Strings of the JavaScript runtime\<close>

text \<open>
  A JavaScript string is a sequence of UTF-16 code units. A code unit is modelled by its
  number (below 65536), so that the white space of the regular expressions and of
  \<^verbatim>\<open>trim\<close> above U+00FF is part of the model. \<open>js\<close> turns an ASCII literal of
  the source into such a string.
\<close>

type_synonym jstring = "nat list"

definition js :: "string \<Rightarrow> jstring" where
  "js s = map of_char s"

text \<open>
  The class \<^verbatim>\<open>\s\<close> of a regular expression and the characters removed by
  \<^verbatim>\<open>String.prototype.trim\<close> are the same set: the white space and line
  terminator code points of ECMAScript.
\<close>

definition is_ws :: "nat \<Rightarrow> bool" where
  "is_ws c = (c \<in> {0x09, 0x0A, 0x0B, 0x0C, 0x0D, 0x20, 0xA0, 0x1680, 0x2000, 0x2001,
      0x2002, 0x2003, 0x2004, 0x2005, 0x2006, 0x2007, 0x2008, 0x2009, 0x200A, 0x2028,
      0x2029, 0x202F, 0x205F, 0x3000, 0xFEFF})"

definition trim :: "jstring \<Rightarrow> jstring" where
  "trim s = rev (dropWhile is_ws (rev (dropWhile is_ws s)))"

fun starts_with :: "jstring \<Rightarrow> jstring \<Rightarrow> bool" where
  "starts_with [] s = True"
| "starts_with (p # ps) [] = False"
| "starts_with (p # ps) (c # cs) = (p = c \<and> starts_with ps cs)"

text \<open>
  \<^verbatim>\<open>s.replace(pat, rep)\<close> with a string pattern replaces the first occurrence only.
\<close>

fun replace_first :: "jstring \<Rightarrow> jstring \<Rightarrow> jstring \<Rightarrow> jstring" where
  "replace_first pat rep [] = (if pat = [] then rep else [])"
| "replace_first pat rep (c # cs) =
     (if starts_with pat (c # cs) then rep @ drop (length pat) (c # cs)
      else c # replace_first pat rep cs)"

fun join_with :: "jstring \<Rightarrow> jstring list \<Rightarrow> jstring" where
  "join_with sep [] = []"
| "join_with sep [x] = x"
| "join_with sep (x # y # ys) = x @ sep @ join_with sep (y # ys)"

text \<open>Decimal digits of a number, as template literals print a status code.\<close>

function show_nat :: "nat \<Rightarrow> jstring" where
  "show_nat n = (if n < 10 then [48 + n] else show_nat (n div 10) @ [48 + n mod 10])"
  by pat_completeness auto
termination
  by (relation "measure (\<lambda>n. n)") auto

section \<open>The two regular expressions of the handler\<close>

text \<open>
  The source matches the model's answer against
  \<^verbatim>\<open>/```json\s*([\s\S]*?)\s*```/\<close> and then against
  \<^verbatim>\<open>/```\s*([\s\S]*?)\s*```/\<close>. Both are sequences of three kinds of
  atoms: a literal, the greedy \<^verbatim>\<open>\s*\<close> and the lazy capturing group
  \<^verbatim>\<open>([\s\S]*?)\<close>. \<open>match_here\<close> is the backtracking matcher anchored at the
  start of its input: the greedy star first tries to take one more white space character
  and gives it back if the rest does not match, the lazy group first tries to stop. The
  result is the text of the capturing group. \<open>re_match\<close> tries the start positions
  from left to right, as \<^verbatim>\<open>String.prototype.match\<close> does without the global flag.
\<close>

datatype atom = Chars jstring | WsStar | AnyLazy

fun match_here :: "atom list \<Rightarrow> jstring \<Rightarrow> jstring option" where
  "match_here [] s = Some []"
| "match_here (Chars l # r) s =
     (if starts_with l s then match_here r (drop (length l) s) else None)"
| "match_here (WsStar # r) [] = match_here r []"
| "match_here (WsStar # r) (c # cs) =
     (if is_ws c
      then (case match_here (WsStar # r) cs of
              Some g \<Rightarrow> Some g
            | None \<Rightarrow> match_here r (c # cs))
      else match_here r (c # cs))"
| "match_here (AnyLazy # r) [] =
     (case match_here r [] of Some _ \<Rightarrow> Some [] | None \<Rightarrow> None)"
| "match_here (AnyLazy # r) (c # cs) =
     (case match_here r (c # cs) of
        Some _ \<Rightarrow> Some []
      | None \<Rightarrow> map_option ((#) c) (match_here (AnyLazy # r) cs))"

fun re_match :: "atom list \<Rightarrow> jstring \<Rightarrow> jstring option" where
  "re_match re [] = match_here re []"
| "re_match re (c # cs) =
     (case match_here re (c # cs) of Some g \<Rightarrow> Some g | None \<Rightarrow> re_match re cs)"

definition fence :: jstring where
  "fence = [96, 96, 96]"

definition json_fence_re :: "atom list" where
  "json_fence_re = [Chars (fence @ js ''json''), WsStar, AnyLazy, WsStar, Chars fence]"

definition any_fence_re :: "atom list" where
  "any_fence_re = [Chars fence, WsStar, AnyLazy, WsStar, Chars fence]"

text \<open>
  \<^verbatim>\<open>const jsonMatch = content.match(re1) || content.match(re2);\<close>
  \<^verbatim>\<open>const jsonStr = jsonMatch ? jsonMatch[1] : content;\<close>
\<close>

definition jsonMatch :: "jstring \<Rightarrow> jstring option" where
  "jsonMatch content =
     (case re_match json_fence_re content of
        Some g \<Rightarrow> Some g
      | None \<Rightarrow> re_match any_fence_re content)"

definition jsonStr :: "jstring \<Rightarrow> jstring" where
  "jsonStr content = (case jsonMatch content of Some g \<Rightarrow> g | None \<Rightarrow> content)"

section \<open>Values of the runtime\<close>

text \<open>
  The values the handler computes with are the values \<^verbatim>\<open>JSON.parse\<close> produces,
  and \<^verbatim>\<open>undefined\<close>, which a read of an absent property yields. An object is the
  list of its own properties (the parser keeps one entry per key). Numbers are idealised as
  rationals: the handler passes them on and compares one with zero, nothing more.
\<close>

datatype jsval =
    JUndefined
  | JNull
  | JBool bool
  | JNum rat
  | JStr jstring
  | JArr "jsval list"
  | JObj "(jstring \<times> jsval) list"

text \<open>
  What the source can throw: \<^verbatim>\<open>new Error(message)\<close>, the \<^verbatim>\<open>TypeError\<close> of a
  property read on \<^verbatim>\<open>null\<close> or \<^verbatim>\<open>undefined\<close>, of a call of something that is
  no function and of a failed \<^verbatim>\<open>fetch\<close>, and the \<^verbatim>\<open>SyntaxError\<close> of a
  JSON parser.
\<close>

datatype exn = Error jstring | TypeError | SyntaxError

text \<open>
  \<^verbatim>\<open>v.k\<close> for the property names the source reads as data. None of them is an
  array index or a name inherited from a prototype, so on an array or a string only
  \<^verbatim>\<open>length\<close> is defined, and on a number or a boolean nothing is.
\<close>

fun get_prop :: "jsval \<Rightarrow> jstring \<Rightarrow> exn + jsval" where
  "get_prop JUndefined k = Inl TypeError"
| "get_prop JNull k = Inl TypeError"
| "get_prop (JObj kvs) k = Inr (case map_of kvs k of Some v \<Rightarrow> v | None \<Rightarrow> JUndefined)"
| "get_prop (JArr xs) k =
     Inr (if k = js ''length'' then JNum (of_nat (length xs)) else JUndefined)"
| "get_prop (JStr s) k =
     Inr (if k = js ''length'' then JNum (of_nat (length s)) else JUndefined)"
| "get_prop (JBool b) k = Inr JUndefined"
| "get_prop (JNum r) k = Inr JUndefined"

text \<open>\<^verbatim>\<open>v[0]\<close>.\<close>

fun get_index0 :: "jsval \<Rightarrow> exn + jsval" where
  "get_index0 JUndefined = Inl TypeError"
| "get_index0 JNull = Inl TypeError"
| "get_index0 (JArr xs) = Inr (case xs of [] \<Rightarrow> JUndefined | x # _ \<Rightarrow> x)"
| "get_index0 (JStr s) = Inr (case s of [] \<Rightarrow> JUndefined | c # _ \<Rightarrow> JStr [c])"
| "get_index0 (JObj kvs) =
     Inr (case map_of kvs (js ''0'') of Some v \<Rightarrow> v | None \<Rightarrow> JUndefined)"
| "get_index0 (JBool b) = Inr JUndefined"
| "get_index0 (JNum r) = Inr JUndefined"

definition bind_exn :: "exn + 'a \<Rightarrow> ('a \<Rightarrow> exn + 'b) \<Rightarrow> exn + 'b" where
  "bind_exn r f = (case r of Inl x \<Rightarrow> Inl x | Inr v \<Rightarrow> f v)"

text \<open>Truthiness, for \<^verbatim>\<open>a && b\<close> and \<^verbatim>\<open>a || b\<close>.\<close>

fun truthy :: "jsval \<Rightarrow> bool" where
  "truthy JUndefined = False"
| "truthy JNull = False"
| "truthy (JBool b) = b"
| "truthy (JNum r) = (r \<noteq> 0)"
| "truthy (JStr s) = (s \<noteq> [])"
| "truthy (JArr xs) = True"
| "truthy (JObj kvs) = True"

text \<open>\<^verbatim>\<open>s || dflt\<close> for a nullable text column.\<close>

definition or_default :: "jstring option \<Rightarrow> jstring \<Rightarrow> jstring" where
  "or_default v dflt = (case v of None \<Rightarrow> dflt | Some s \<Rightarrow> if s = [] then dflt else s)"

section \<open>The persistence backend\<close>

text \<open>
  The three tables the handler touches, with the columns of the migration. A column the
  handler writes from the model's answer holds the value as it was sent; whether the
  backend takes a write is the backend's decision (see \<open>accepts\<close> below).
\<close>

record application =
  app_user_id :: jstring
  app_name :: jstring
  app_description :: "jstring option"
  app_url :: "jstring option"
  app_technology_stack :: "jstring option list option"
  app_status :: jstring

record security_scan =
  scan_application_id :: jstring
  scan_status :: jstring
  scan_overall_score :: jsval
  scan_risk_level :: jsval
  scan_vulnerabilities_found :: jsval
  scan_duration :: jsval
  scan_started_at :: "jstring option"
  scan_completed_at :: "jstring option"

record vulnerability =
  vuln_scan_id :: jsval
  vuln_severity :: jsval
  vuln_category :: jsval
  vuln_title :: jsval
  vuln_description :: jsval
  vuln_affected_component :: jsval
  vuln_cve_id :: jsval
  vuln_cvss_score :: jsval
  vuln_recommendation :: jsval
  vuln_code_snippet :: jsval
  vuln_status :: jstring

text \<open>
  The four writes of the source. The row is chosen by \<^verbatim>\<open>.eq('id', v)\<close>; in the
  earlier variant of the handler \<open>v\<close> is whatever the request body held.
\<close>

datatype db_write =
    ScanRunning jsval jstring
  | ScanCompleted jsval jsval jsval jsval jsval jstring
  | AppStatus jsval jstring
  | VulnInsert "vulnerability list"

text \<open>
  The journal lists every write that was sent, in order, with the backend's verdict.
\<close>

record db =
  applications :: "jstring \<rightharpoonup> application"
  security_scans :: "jstring \<rightharpoonup> security_scan"
  vulnerabilities :: "vulnerability list"
  journal :: "(db_write \<times> bool) list"

text \<open>A key that is no string matches no row.\<close>

definition row_of :: "(jstring \<rightharpoonup> 'r) \<Rightarrow> jsval \<Rightarrow> 'r option" where
  "row_of tbl v = (case v of JStr s \<Rightarrow> tbl s | _ \<Rightarrow> None)"

text \<open>
  \<^verbatim>\<open>JSON.stringify\<close> drops a property whose value is \<^verbatim>\<open>undefined\<close>, so such a
  column of an update keeps its value.
\<close>

definition patch :: "jsval \<Rightarrow> jsval \<Rightarrow> jsval" where
  "patch old v = (if v = JUndefined then old else v)"

fun commit :: "db_write \<Rightarrow> db \<Rightarrow> db" where
  "commit (ScanRunning i t) d =
     (case i of
        JStr s \<Rightarrow>
          (case security_scans d s of
             None \<Rightarrow> d
           | Some r \<Rightarrow> d\<lparr>security_scans := (security_scans d)
               (s \<mapsto> r\<lparr>scan_status := js ''running'', scan_started_at := Some t\<rparr>)\<rparr>)
      | _ \<Rightarrow> d)"
| "commit (ScanCompleted i score risk found dur t) d =
     (case i of
        JStr s \<Rightarrow>
          (case security_scans d s of
             None \<Rightarrow> d
           | Some r \<Rightarrow> d\<lparr>security_scans := (security_scans d)
               (s \<mapsto> r\<lparr>scan_status := js ''completed'',
                       scan_overall_score := patch (scan_overall_score r) score,
                       scan_risk_level := patch (scan_risk_level r) risk,
                       scan_vulnerabilities_found := patch (scan_vulnerabilities_found r) found,
                       scan_duration := patch (scan_duration r) dur,
                       scan_completed_at := Some t\<rparr>)\<rparr>)
      | _ \<Rightarrow> d)"
| "commit (AppStatus i st) d =
     (case i of
        JStr s \<Rightarrow>
          (case applications d s of
             None \<Rightarrow> d
           | Some a \<Rightarrow> d\<lparr>applications := (applications d)(s \<mapsto> a\<lparr>app_status := st\<rparr>)\<rparr>)
      | _ \<Rightarrow> d)"
| "commit (VulnInsert rows) d = d\<lparr>vulnerabilities := vulnerabilities d @ rows\<rparr>"


section \<open>The collaborators of the handler\<close>

text \<open>
  The user message of the completion request interpolates four texts of the application
  row; the rest of the request (the model name, the system message, the temperature, the
  output limit) is constant.
\<close>

record prompt =
  prompt_name :: jstring
  prompt_url :: jstring
  prompt_description :: jstring
  prompt_stack :: jstring

record ai_response =
  ai_ok :: bool
  ai_status :: nat
  ai_body :: jstring

text \<open>
  Everything outside the handler is a parameter: the authentication service
  (\<^verbatim>\<open>supabase.auth.getUser\<close>: the identity of the user, or none when it reports an
  error or no user), the JSON parser of the runtime (none when it throws), the UUID test
  of the validation library, the completion API (none when \<^verbatim>\<open>fetch\<close> throws), the
  decision of the backend on each write, the comparison \<^verbatim>\<open>v > 0\<close> of the runtime
  on a string, an array or an object, the clock, the random source, and the message text
  the engine gives its own errors. The random source is the integer from 0 to 59 that
  \<^verbatim>\<open>Math.floor(Math.random() * 60)\<close> evaluates to in the floating-point numbers
  of the runtime.
\<close>

record env =
  auth_getUser :: "jstring \<Rightarrow> jstring option"
  JSON_parse :: "jstring \<Rightarrow> jsval option"
  uuid_ok :: "jstring \<Rightarrow> bool"
  fetch_completion :: "prompt \<Rightarrow> ai_response option"
  accepts :: "db \<Rightarrow> db_write \<Rightarrow> bool"
  to_primitive_gt_zero :: "jsval \<Rightarrow> exn + bool"
  now_started :: jstring
  now_completed :: jstring
  Math_floor_random_60 :: nat
  crypto_randomUUID :: jstring
  engine_message :: "exn \<Rightarrow> jstring"

text \<open>
  A write is sent, the backend commits it or not, and the handler never looks at the
  answer: no write of the source reads the \<^verbatim>\<open>error\<close> of its result.
\<close>

definition db_write :: "env \<Rightarrow> db_write \<Rightarrow> db \<Rightarrow> db" where
  "db_write e w d =
     (if accepts e d w
      then (commit w d)\<lparr>journal := journal d @ [(w, True)]\<rparr>
      else d\<lparr>journal := journal d @ [(w, False)]\<rparr>)"

text \<open>\<^verbatim>\<open>v > 0\<close>: \<^verbatim>\<open>undefined\<close> becomes NaN, \<^verbatim>\<open>null\<close> becomes 0.\<close>

fun js_gt_zero :: "env \<Rightarrow> jsval \<Rightarrow> exn + bool" where
  "js_gt_zero e JUndefined = Inr False"
| "js_gt_zero e JNull = Inr False"
| "js_gt_zero e (JBool b) = Inr b"
| "js_gt_zero e (JNum r) = Inr (0 < r)"
| "js_gt_zero e v = to_primitive_gt_zero e v"

section \<open>Requests and responses\<close>

record request =
  req_method :: string
  req_authorization :: "jstring option"
  req_body :: jstring

text \<open>
  The body of a response is the value handed to \<^verbatim>\<open>JSON.stringify\<close>, or nothing
  for \<^verbatim>\<open>new Response(null, ...)\<close>.
\<close>

record response =
  resp_status :: nat
  resp_headers :: "(string \<times> string) list"
  resp_body :: "jsval option"

datatype outcome = Return response | Throw exn

definition corsHeaders :: "(string \<times> string) list" where
  "corsHeaders =
     [(''Access-Control-Allow-Origin'', ''*''),
      (''Access-Control-Allow-Headers'', ''authorization, x-client-info, apikey, content-type'')]"

definition json_response :: "nat \<Rightarrow> jsval \<Rightarrow> response" where
  "json_response st v =
     \<lparr>resp_status = st,
      resp_headers = corsHeaders @ [(''Content-Type'', ''application/json'')],
      resp_body = Some v\<rparr>"

definition preflight :: response where
  "preflight = \<lparr>resp_status = 200, resp_headers = corsHeaders, resp_body = None\<rparr>"

definition error_payload :: "jstring \<Rightarrow> jsval" where
  "error_payload msg = JObj [(js ''error'', JStr msg)]"

definition success_payload :: "jsval \<Rightarrow> jsval" where
  "success_payload results = JObj [(js ''success'', JBool True), (js ''results'', results)]"

definition scan_failed :: jstring where
  "scan_failed = js ''Security scan failed. Please try again or contact support.''"

definition scan_failed_response :: "env \<Rightarrow> response" where
  "scan_failed_response e =
     json_response 500
       (JObj [(js ''error'', JStr scan_failed), (js ''errorId'', JStr (crypto_randomUUID e))])"

section \<open>Validation of the request body\<close>

text \<open>
  \<^verbatim>\<open>requestSchema = z.object({ scanId: z.string().uuid(), applicationId: z.string().uuid() })\<close>,
  with the validation library in the version the import pins (3.22.4). The object schema
  wants an object, checks each declared key in the order of the declaration and collects
  the issues of all of them, and drops the keys it does not know. The string schema wants
  a string and then tests it for a UUID.

  An issue is the object the library builds for it. For a value of the wrong type it holds
  the code \<^verbatim>\<open>invalid_type\<close>, the type expected, the type received, the path and
  the message, in this order; for a string that is no UUID it holds the validation
  \<^verbatim>\<open>uuid\<close>, the code \<^verbatim>\<open>invalid_string\<close>, the message and the path.
\<close>

datatype issue =
    Invalid_type jstring jstring "jstring list"
  | Invalid_uuid "jstring list"

fun issue_path :: "issue \<Rightarrow> jstring list" where
  "issue_path (Invalid_type expected received path) = path"
| "issue_path (Invalid_uuid path) = path"

text \<open>The type the library finds in a value of the parser.\<close>

fun getParsedType :: "jsval \<Rightarrow> jstring" where
  "getParsedType JUndefined = js ''undefined''"
| "getParsedType JNull = js ''null''"
| "getParsedType (JBool b) = js ''boolean''"
| "getParsedType (JNum r) = js ''number''"
| "getParsedType (JStr s) = js ''string''"
| "getParsedType (JArr xs) = js ''array''"
| "getParsedType (JObj kvs) = js ''object''"

text \<open>
  The message of the default error map: \<^verbatim>\<open>Required\<close> for a value that is
  \<^verbatim>\<open>undefined\<close>, the two types otherwise.
\<close>

definition invalid_type_message :: "jstring \<Rightarrow> jstring \<Rightarrow> jstring" where
  "invalid_type_message expected received =
     (if received = js ''undefined'' then js ''Required''
      else js ''Expected '' @ expected @ js '', received '' @ received)"

fun issue_json :: "issue \<Rightarrow> jsval" where
  "issue_json (Invalid_type expected received path) =
     JObj [(js ''code'', JStr (js ''invalid_type'')),
           (js ''expected'', JStr expected),
           (js ''received'', JStr received),
           (js ''path'', JArr (map JStr path)),
           (js ''message'', JStr (invalid_type_message expected received))]"
| "issue_json (Invalid_uuid path) =
     JObj [(js ''validation'', JStr (js ''uuid'')),
           (js ''code'', JStr (js ''invalid_string'')),
           (js ''message'', JStr (js ''Invalid uuid'')),
           (js ''path'', JArr (map JStr path))]"

text \<open>\<^verbatim>\<open>z.string().uuid()\<close> on the value of the key \<open>k\<close>; a missing key reads as \<^verbatim>\<open>undefined\<close>.\<close>

definition uuid_field :: "env \<Rightarrow> (jstring \<times> jsval) list \<Rightarrow> jstring \<Rightarrow> issue list + jstring" where
  "uuid_field e kvs k =
     (case map_of kvs k of
        Some (JStr s) \<Rightarrow> if uuid_ok e s then Inr s else Inl [Invalid_uuid [k]]
      | Some v \<Rightarrow> Inl [Invalid_type (js ''string'') (getParsedType v) [k]]
      | None \<Rightarrow> Inl [Invalid_type (js ''string'') (js ''undefined'') [k]])"

definition requestSchema_safeParse :: "env \<Rightarrow> jsval \<Rightarrow> issue list + jstring \<times> jstring" where
  "requestSchema_safeParse e body =
     (case body of
        JObj kvs \<Rightarrow>
          (case (uuid_field e kvs (js ''scanId''), uuid_field e kvs (js ''applicationId'')) of
             (Inr s, Inr a) \<Rightarrow> Inr (s, a)
           | (Inl i, Inr a) \<Rightarrow> Inl i
           | (Inr s, Inl j) \<Rightarrow> Inl j
           | (Inl i, Inl j) \<Rightarrow> Inl (i @ j))
      | _ \<Rightarrow> Inl [Invalid_type (js ''object'') (getParsedType body) []])"

text \<open>Lines 52 to 60: the issues are sent as the library made them.\<close>

definition invalid_request :: "issue list \<Rightarrow> response" where
  "invalid_request issues =
     json_response 400
       (JObj [(js ''error'', JStr (js ''Invalid request parameters'')),
              (js ''details'', JArr (map issue_json issues))])"


section \<open>The completion call and its answer\<close>

text \<open>
  \<^verbatim>\<open>${app.name}\<close>, \<^verbatim>\<open>${app.url || d}\<close> with the default text \<open>d\<close> below
  (its third letter is U+00E3), the same for the description, and
  \<^verbatim>\<open>${app.technology_stack?.join(', ') || d'}\<close>; \<^verbatim>\<open>join\<close> prints a null
  element as the empty string.
\<close>

definition nao_fornecida :: jstring where
  "nao_fornecida = js ''N'' @ [0xE3] @ js ''o fornecida''"

definition nao_especificada :: jstring where
  "nao_especificada = js ''N'' @ [0xE3] @ js ''o especificada''"

definition build_prompt :: "application \<Rightarrow> prompt" where
  "build_prompt app =
     \<lparr>prompt_name = app_name app,
      prompt_url = or_default (app_url app) nao_fornecida,
      prompt_description = or_default (app_description app) nao_fornecida,
      prompt_stack =
        or_default
          (map_option (\<lambda>xs. join_with (js '', '') (map (\<lambda>x. case x of None \<Rightarrow> [] | Some t \<Rightarrow> t) xs))
             (app_technology_stack app))
          nao_especificada\<rparr>"

text \<open>
  \<^verbatim>\<open>const aiData = await aiResponse.json();\<close>
  \<^verbatim>\<open>const content = aiData.choices[0].message.content;\<close>
\<close>

definition ai_content :: "env \<Rightarrow> ai_response \<Rightarrow> exn + jsval" where
  "ai_content e aiResponse =
     (case JSON_parse e (ai_body aiResponse) of
        None \<Rightarrow> Inl SyntaxError
      | Some aiData \<Rightarrow>
          bind_exn (get_prop aiData (js ''choices'')) (\<lambda>choices.
          bind_exn (get_index0 choices) (\<lambda>choice.
          bind_exn (get_prop choice (js ''message'')) (\<lambda>message.
          get_prop message (js ''content'')))))"

text \<open>The fallback of the \<^verbatim>\<open>catch (parseError)\<close> block.\<close>

definition fallback_vulnerability :: "application \<Rightarrow> jsval" where
  "fallback_vulnerability app =
     JObj [(js ''severity'', JStr (js ''medium'')),
           (js ''category'', JStr (js ''An'' @ [0xE1] @ js ''lise'')),
           (js ''title'', JStr (js ''An'' @ [0xE1] @ js ''lise Incompleta'')),
           (js ''description'',
              JStr (js ''A an'' @ [0xE1] @ js ''lise n'' @ [0xE3]
                    @ js ''o pode ser completada no formato esperado.'')),
           (js ''affected_component'', JStr (app_name app)),
           (js ''cve_id'', JNull),
           (js ''cvss_score'', JNull),
           (js ''recommendation'',
              JStr (js ''Execute uma nova an'' @ [0xE1] @ js ''lise ou verifique manualmente.'')),
           (js ''code_snippet'', JNull)]"

definition fallback :: "application \<Rightarrow> jsval" where
  "fallback app =
     JObj [(js ''overall_score'', JNum 50),
           (js ''risk_level'', JStr (js ''medium'')),
           (js ''vulnerabilities'', JArr [fallback_vulnerability app])]"

text \<open>
  The \<^verbatim>\<open>try\<close> block around the extraction (lines 188 to 214 of
  \<^verbatim>\<open>index.ts\<close>). \<^verbatim>\<open>content.match\<close> is a function only
  when \<open>content\<close> is a string; on anything else the call throws inside the block, and
  the \<^verbatim>\<open>catch\<close> takes the fallback as it does when \<^verbatim>\<open>JSON.parse\<close> throws.
\<close>

definition scanResults :: "env \<Rightarrow> application \<Rightarrow> jsval \<Rightarrow> jsval" where
  "scanResults e app content =
     (case content of
        JStr c \<Rightarrow>
          (case JSON_parse e (trim (jsonStr c)) of
             Some v \<Rightarrow> v
           | None \<Rightarrow> fallback app)
      | _ \<Rightarrow> fallback app)"

section \<open>Persisting the results\<close>

text \<open>
  \<^verbatim>\<open>Math.floor(Math.random() * 60) + 30\<close> (line 217): the sum of two small
  integers is exact.
\<close>

definition scanDuration :: "env \<Rightarrow> jsval" where
  "scanDuration e = JNum (of_nat (Math_floor_random_60 e) + 30)"

text \<open>
  The object of the terminal update of the scan (lines 220 to 230). Its property reads run
  before the update is sent, so a throw among them leaves the scan as it was.
\<close>

definition scan_update :: "env \<Rightarrow> jsval \<Rightarrow> jsval \<Rightarrow> exn + db_write" where
  "scan_update e scanId results =
     bind_exn (get_prop results (js ''overall_score'')) (\<lambda>score.
     bind_exn (get_prop results (js ''risk_level'')) (\<lambda>risk.
     bind_exn (get_prop results (js ''vulnerabilities'')) (\<lambda>vs.
     bind_exn (get_prop vs (js ''length'')) (\<lambda>found.
     Inr (ScanCompleted scanId score risk found (scanDuration e) (now_completed e))))))"

text \<open>
  \<^verbatim>\<open>scanResults.vulnerabilities && scanResults.vulnerabilities.length > 0\<close>
\<close>

definition has_vulnerabilities :: "env \<Rightarrow> jsval \<Rightarrow> exn + bool" where
  "has_vulnerabilities e results =
     bind_exn (get_prop results (js ''vulnerabilities'')) (\<lambda>vs.
       if truthy vs
       then bind_exn (get_prop results (js ''vulnerabilities'')) (\<lambda>vs'.
            bind_exn (get_prop vs' (js ''length'')) (js_gt_zero e))
       else Inr False)"

text \<open>One row per entry; a property read on a \<^verbatim>\<open>null\<close> entry throws.\<close>

definition vulnerability_row :: "jsval \<Rightarrow> jsval \<Rightarrow> exn + vulnerability" where
  "vulnerability_row scanId vuln =
     bind_exn (get_prop vuln (js ''severity'')) (\<lambda>severity.
     bind_exn (get_prop vuln (js ''category'')) (\<lambda>category.
     bind_exn (get_prop vuln (js ''title'')) (\<lambda>title.
     bind_exn (get_prop vuln (js ''description'')) (\<lambda>description.
     bind_exn (get_prop vuln (js ''affected_component'')) (\<lambda>affected_component.
     bind_exn (get_prop vuln (js ''cve_id'')) (\<lambda>cve_id.
     bind_exn (get_prop vuln (js ''cvss_score'')) (\<lambda>cvss_score.
     bind_exn (get_prop vuln (js ''recommendation'')) (\<lambda>recommendation.
     bind_exn (get_prop vuln (js ''code_snippet'')) (\<lambda>code_snippet.
     Inr \<lparr>vuln_scan_id = scanId,
          vuln_severity = severity,
          vuln_category = category,
          vuln_title = title,
          vuln_description = description,
          vuln_affected_component = affected_component,
          vuln_cve_id = cve_id,
          vuln_cvss_score = cvss_score,
          vuln_recommendation = recommendation,
          vuln_code_snippet = code_snippet,
          vuln_status = js ''open''\<rparr>)))))))))"

fun map_rows :: "jsval \<Rightarrow> jsval list \<Rightarrow> exn + vulnerability list" where
  "map_rows scanId [] = Inr []"
| "map_rows scanId (vuln # vs) =
     bind_exn (vulnerability_row scanId vuln) (\<lambda>r.
     bind_exn (map_rows scanId vs) (\<lambda>rs. Inr (r # rs)))"

text \<open>
  \<^verbatim>\<open>scanResults.vulnerabilities.map(...)\<close>: only an array has the method; on a string
  or an object the call throws.
\<close>

definition vulnerabilitiesToInsert :: "jsval \<Rightarrow> jsval \<Rightarrow> exn + vulnerability list" where
  "vulnerabilitiesToInsert scanId results =
     bind_exn (get_prop results (js ''vulnerabilities'')) (\<lambda>vs.
       case vs of JArr xs \<Rightarrow> map_rows scanId xs | _ \<Rightarrow> Inl TypeError)"

text \<open>
  Lines 232 to 264: the insert, whose result is dropped, the update of the application and
  the response.
\<close>

definition mark_completed :: "env \<Rightarrow> jsval \<Rightarrow> jsval \<Rightarrow> db \<Rightarrow> outcome \<times> db" where
  "mark_completed e applicationId results d =
     (Return (json_response 200 (success_payload results)),
      db_write e (AppStatus applicationId (js ''completed'')) d)"

definition persist_results :: "env \<Rightarrow> jsval \<Rightarrow> jsval \<Rightarrow> jsval \<Rightarrow> db \<Rightarrow> outcome \<times> db" where
  "persist_results e scanId applicationId results d =
     (case scan_update e scanId results of
        Inl x \<Rightarrow> (Throw x, d)
      | Inr w \<Rightarrow>
          (let d1 = db_write e w d in
           case has_vulnerabilities e results of
             Inl x \<Rightarrow> (Throw x, d1)
           | Inr False \<Rightarrow> mark_completed e applicationId results d1
           | Inr True \<Rightarrow>
               (case vulnerabilitiesToInsert scanId results of
                  Inl x \<Rightarrow> (Throw x, d1)
                | Inr rows \<Rightarrow>
                    mark_completed e applicationId results (db_write e (VulnInsert rows) d1))))"

section \<open>The handler\<close>

text \<open>
  Lines 66 to 264 of \<^verbatim>\<open>index.ts\<close>, to the end of the \<^verbatim>\<open>try\<close> block. The
  update of the scan (lines 66 to 70) comes first; the application is fetched (72 to 85),
  its owner compared (87 to 94) and the scan checked (96 to 109) after it.
\<close>

definition run_scan :: "env \<Rightarrow> jstring \<Rightarrow> jstring \<Rightarrow> jstring \<Rightarrow> db \<Rightarrow> outcome \<times> db" where
  "run_scan e user_id scanId applicationId d =
     (let d1 = db_write e (ScanRunning (JStr scanId) (now_started e)) d in
      case applications d1 applicationId of
        None \<Rightarrow> (Return (json_response 404 (error_payload (js ''Application not found''))), d1)
      | Some app \<Rightarrow>
          if app_user_id app \<noteq> user_id
          then (Return (json_response 403
                  (error_payload (js ''You do not have permission to scan this application''))), d1)
          else
            (case security_scans d1 scanId of
               None \<Rightarrow> (Return (json_response 400 (error_payload (js ''Invalid scan request''))), d1)
             | Some scan \<Rightarrow>
                 if scan_application_id scan \<noteq> applicationId
                 then (Return (json_response 400 (error_payload (js ''Invalid scan request''))), d1)
                 else
                   (let d2 = db_write e (AppStatus (JStr applicationId) (js ''scanning'')) d1 in
                    case fetch_completion e (build_prompt app) of
                      None \<Rightarrow> (Throw TypeError, d2)
                    | Some aiResponse \<Rightarrow>
                        if \<not> ai_ok aiResponse then (Return (scan_failed_response e), d2)
                        else
                          (case ai_content e aiResponse of
                             Inl x \<Rightarrow> (Throw x, d2)
                           | Inr content \<Rightarrow>
                               persist_results e (JStr scanId) (JStr applicationId)
                                 (scanResults e app content) d2))))"

text \<open>
  The \<^verbatim>\<open>try\<close> block of \<^verbatim>\<open>supabase/functions/security-scanner/index.ts\<close>,
  lines 20 to 64: the header (a missing and an empty one are both falsy), the user of the
  token, the body, its validation. \<open>serve\<close> adds the answer to \<^verbatim>\<open>OPTIONS\<close> (lines
  15 to 18) and the \<^verbatim>\<open>catch\<close> (lines 266 to 280), which answers whatever was thrown
  with the fixed message and a fresh identifier.
\<close>

definition serve_try :: "env \<Rightarrow> request \<Rightarrow> db \<Rightarrow> outcome \<times> db" where
  "serve_try e req d =
     (case req_authorization req of
        None \<Rightarrow> (Return (json_response 401 (error_payload (js ''Authentication required''))), d)
      | Some authHeader \<Rightarrow>
          if authHeader = []
          then (Return (json_response 401 (error_payload (js ''Authentication required''))), d)
          else
            (case auth_getUser e (replace_first (js ''Bearer '') [] authHeader) of
               None \<Rightarrow>
                 (Return (json_response 401 (error_payload (js ''Invalid authentication token''))), d)
             | Some user_id \<Rightarrow>
                 (case JSON_parse e (req_body req) of
                    None \<Rightarrow> (Throw SyntaxError, d)
                  | Some body \<Rightarrow>
                      (case requestSchema_safeParse e body of
                         Inl issues \<Rightarrow> (Return (invalid_request issues), d)
                       | Inr (scanId, applicationId) \<Rightarrow>
                           run_scan e user_id scanId applicationId d))))"

definition serve :: "env \<Rightarrow> request \<Rightarrow> db \<Rightarrow> response \<times> db" where
  "serve e req d =
     (if req_method req = ''OPTIONS'' then (preflight, d)
      else
        (case serve_try e req d of
           (Return r, d') \<Rightarrow> (r, d')
         | (Throw x, d') \<Rightarrow> (scan_failed_response e, d')))"

section \<open>The earlier variant of the handler\<close>

text \<open>
  The second source file of the function (\<^verbatim>\<open>src/unnamed/part_000\<close>) reads no
  credential and validates no body: it destructures whatever the body parses to (line 25),
  updates the scan (lines 29 to 33), throws \<^verbatim>\<open>Error\<close> objects when the application is
  missing (line 43) and when the completion call fails (line 111), and its \<^verbatim>\<open>catch\<close>
  sends the message of the error to the caller (line 199). The parsing (lines 117 to 143)
  and the persistence (lines 145 to 193) are the text of \<^verbatim>\<open>index.ts\<close>.
\<close>

definition exn_message :: "env \<Rightarrow> exn \<Rightarrow> jstring" where
  "exn_message e x = (case x of Error m \<Rightarrow> m | _ \<Rightarrow> engine_message e x)"

definition run_scan_part_000 :: "env \<Rightarrow> jsval \<Rightarrow> jsval \<Rightarrow> db \<Rightarrow> outcome \<times> db" where
  "run_scan_part_000 e scanId applicationId d =
     (let d1 = db_write e (ScanRunning scanId (now_started e)) d in
      case row_of (applications d1) applicationId of
        None \<Rightarrow> (Throw (Error (js ''Application not found'')), d1)
      | Some app \<Rightarrow>
          (let d2 = db_write e (AppStatus applicationId (js ''scanning'')) d1 in
           case fetch_completion e (build_prompt app) of
             None \<Rightarrow> (Throw TypeError, d2)
           | Some aiResponse \<Rightarrow>
               if \<not> ai_ok aiResponse
               then (Throw (Error (js ''AI API error: '' @ show_nat (ai_status aiResponse))), d2)
               else
                 (case ai_content e aiResponse of
                    Inl x \<Rightarrow> (Throw x, d2)
                  | Inr content \<Rightarrow>
                      persist_results e scanId applicationId (scanResults e app content) d2)))"

definition serve_try_part_000 :: "env \<Rightarrow> request \<Rightarrow> db \<Rightarrow> outcome \<times> db" where
  "serve_try_part_000 e req d =
     (case JSON_parse e (req_body req) of
        None \<Rightarrow> (Throw SyntaxError, d)
      | Some body \<Rightarrow>
          (case get_prop body (js ''scanId'') of
             Inl x \<Rightarrow> (Throw x, d)
           | Inr scanId \<Rightarrow>
               (case get_prop body (js ''applicationId'') of
                  Inl x \<Rightarrow> (Throw x, d)
                | Inr applicationId \<Rightarrow> run_scan_part_000 e scanId applicationId d)))"

definition serve_part_000 :: "env \<Rightarrow> request \<Rightarrow> db \<Rightarrow> response \<times> db" where
  "serve_part_000 e req d =
     (if req_method req = ''OPTIONS'' then (preflight, d)
      else
        (case serve_try_part_000 e req d of
           (Return r, d') \<Rightarrow> (r, d')
         | (Throw x, d') \<Rightarrow> (json_response 500 (error_payload (exn_message e x)), d')))"

section \<open>Notions for stating the properties\<close>

text \<open>\<open>contains p s\<close>: the text \<open>p\<close> occurs in \<open>s\<close>.\<close>

fun contains :: "jstring \<Rightarrow> jstring \<Rightarrow> bool" where
  "contains p [] = starts_with p []"
| "contains p (c # cs) = (starts_with p (c # cs) \<or> contains p cs)"

text \<open>The value a property read yields where it does not throw.\<close>

definition prop_of :: "jsval \<Rightarrow> jstring \<Rightarrow> jsval" where
  "prop_of v k = (case get_prop v k of Inl _ \<Rightarrow> JUndefined | Inr x \<Rightarrow> x)"

text \<open>
  The writes an invocation sent, when it took the backend from \<open>d\<close> to \<open>d'\<close>, and
  whether the backend took all of them.
\<close>

definition writes_sent :: "db \<Rightarrow> db \<Rightarrow> db_write list" where
  "writes_sent d d' = map fst (drop (length (journal d)) (journal d'))"

definition all_accepted :: "db \<Rightarrow> db \<Rightarrow> bool" where
  "all_accepted d d' = list_all snd (drop (length (journal d)) (journal d'))"

text \<open>
  The two writes that record the result of a scan, the update that completes the scan and
  the insert of the vulnerabilities, and whether the backend took those an invocation
  sent.
\<close>

fun records_result :: "db_write \<Rightarrow> bool" where
  "records_result (ScanRunning i t) = False"
| "records_result (ScanCompleted i score risk found dur t) = True"
| "records_result (AppStatus i st) = False"
| "records_result (VulnInsert rows) = True"

definition results_accepted :: "db \<Rightarrow> db \<Rightarrow> bool" where
  "results_accepted d d' =
     list_all (\<lambda>(w, ok). ok \<or> \<not> records_result w) (drop (length (journal d)) (journal d'))"

text \<open>The invocation sent the write \<open>w\<close> and the backend took it.\<close>

definition taken :: "db \<Rightarrow> db \<Rightarrow> db_write \<Rightarrow> bool" where
  "taken d d' w = ((w, True) \<in> set (drop (length (journal d)) (journal d')))"

text \<open>
  A field of the body is well formed when it holds a string that the UUID test takes. The
  issue that reports a field which is not: \<^verbatim>\<open>invalid_string\<close> for a string that
  is no UUID, \<^verbatim>\<open>invalid_type\<close> with the type found for any other value and for a
  missing field.
\<close>

definition well_formed :: "env \<Rightarrow> (jstring \<times> jsval) list \<Rightarrow> jstring \<Rightarrow> bool" where
  "well_formed e kvs k = (case map_of kvs k of Some (JStr s) \<Rightarrow> uuid_ok e s | _ \<Rightarrow> False)"

definition violation :: "(jstring \<times> jsval) list \<Rightarrow> jstring \<Rightarrow> issue" where
  "violation kvs k =
     (case map_of kvs k of
        None \<Rightarrow> Invalid_type (js ''string'') (js ''undefined'') [k]
      | Some (JStr s) \<Rightarrow> Invalid_uuid [k]
      | Some v \<Rightarrow> Invalid_type (js ''string'') (getParsedType v) [k])"

section \<open>A backend, a user and a request to run the handler on\<close>

text \<open>
  The identifiers of the examples have the shape the UUID test of the validation library
  takes: groups of 8, 4, 4, 4 and 12 hexadecimal digits.
\<close>

definition is_hex :: "nat \<Rightarrow> bool" where
  "is_hex c = ((48 \<le> c \<and> c \<le> 57) \<or> (65 \<le> c \<and> c \<le> 70) \<or> (97 \<le> c \<and> c \<le> 102))"

fun hex_groups :: "nat list \<Rightarrow> jstring \<Rightarrow> bool" where
  "hex_groups [] s = (s = [])"
| "hex_groups [n] s = (length s = n \<and> list_all is_hex s)"
| "hex_groups (n # m # ns) s =
     (length (take n s) = n \<and> list_all is_hex (take n s) \<and>
      (case drop n s of [] \<Rightarrow> False | c # cs \<Rightarrow> c = 45 \<and> hex_groups (m # ns) cs))"

definition uuid_shape :: "jstring \<Rightarrow> bool" where
  "uuid_shape s = hex_groups [8, 4, 4, 4, 12] s"

text \<open>
  The backend of the examples enforces what the migration declares for the three tables:
  the \<^verbatim>\<open>NOT NULL\<close> columns, the \<^verbatim>\<open>CHECK\<close> lists of the status, severity and
  risk columns, the range of the score, the foreign key of a vulnerability, and a number
  (or nothing) in a numeric column. It refuses a value of another kind in a numeric or an
  enumerated column; no example sends one.
\<close>

definition int_column :: "jsval \<Rightarrow> bool" where
  "int_column v =
     (case v of JUndefined \<Rightarrow> True | JNull \<Rightarrow> True | JNum r \<Rightarrow> of_int \<lfloor>r\<rfloor> = r | _ \<Rightarrow> False)"

definition score_column :: "jsval \<Rightarrow> bool" where
  "score_column v = (int_column v \<and> (case v of JNum r \<Rightarrow> 0 \<le> r \<and> r \<le> 100 | _ \<Rightarrow> True))"

definition enum_column :: "jstring list \<Rightarrow> jsval \<Rightarrow> bool" where
  "enum_column allowed v =
     (case v of JUndefined \<Rightarrow> True | JNull \<Rightarrow> True | JStr s \<Rightarrow> s \<in> set allowed | _ \<Rightarrow> False)"

definition not_null :: "jsval \<Rightarrow> bool" where
  "not_null v = (v \<noteq> JUndefined \<and> v \<noteq> JNull)"

definition cvss_column :: "jsval \<Rightarrow> bool" where
  "cvss_column v =
     (case v of JUndefined \<Rightarrow> True | JNull \<Rightarrow> True | JNum r \<Rightarrow> \<bar>r\<bar> < 9995 / 100 | _ \<Rightarrow> False)"

definition vulnerability_ok :: "db \<Rightarrow> vulnerability \<Rightarrow> bool" where
  "vulnerability_ok d r =
     ((case vuln_scan_id r of JStr s \<Rightarrow> security_scans d s \<noteq> None | _ \<Rightarrow> False) \<and>
      not_null (vuln_severity r) \<and>
      enum_column [js ''critical'', js ''high'', js ''medium'', js ''low'', js ''info'']
        (vuln_severity r) \<and>
      not_null (vuln_category r) \<and> not_null (vuln_title r) \<and> not_null (vuln_description r) \<and>
      cvss_column (vuln_cvss_score r) \<and>
      not_null (vuln_recommendation r) \<and>
      vuln_status r \<in> set [js ''open'', js ''acknowledged'', js ''fixed'', js ''false_positive''])"

fun schema_accepts :: "db \<Rightarrow> db_write \<Rightarrow> bool" where
  "schema_accepts d (ScanRunning i t) = True"
| "schema_accepts d (ScanCompleted i score risk found dur t) =
     (score_column score \<and>
      enum_column [js ''critical'', js ''high'', js ''medium'', js ''low'', js ''secure''] risk \<and>
      int_column found \<and> int_column dur)"
| "schema_accepts d (AppStatus i st) =
     (st \<in> set [js ''pending'', js ''scanning'', js ''completed'', js ''failed''])"
| "schema_accepts d (VulnInsert rows) = list_all (vulnerability_ok d) rows"

definition user_a :: jstring where
  "user_a = js ''0a0a0a0a-0000-4000-8000-00000000000a''"

definition user_b :: jstring where
  "user_b = js ''0b0b0b0b-0000-4000-8000-00000000000b''"

definition app_a :: jstring where
  "app_a = js ''a1a1a1a1-1111-4111-8111-11111111111a''"

definition app_b :: jstring where
  "app_b = js ''b1b1b1b1-1111-4111-8111-11111111111b''"

definition scan_a :: jstring where
  "scan_a = js ''5c5c5c5c-2222-4222-8222-22222222222a''"

definition scan_b :: jstring where
  "scan_b = js ''5d5d5d5d-2222-4222-8222-22222222222b''"

text \<open>
  User A owns application A with its pending scan A; user B owns application B with its
  pending scan B. No vulnerability is stored yet.
\<close>

definition example_application :: "jstring \<Rightarrow> jstring \<Rightarrow> application" where
  "example_application owner name =
     \<lparr>app_user_id = owner, app_name = name, app_description = None,
      app_url = Some (js ''https://shop.example''),
      app_technology_stack = Some [Some (js ''React''), Some (js ''Deno'')],
      app_status = js ''pending''\<rparr>"

definition example_scan :: "jstring \<Rightarrow> security_scan" where
  "example_scan app =
     \<lparr>scan_application_id = app, scan_status = js ''pending'', scan_overall_score = JNull,
      scan_risk_level = JNull, scan_vulnerabilities_found = JNum 0, scan_duration = JNull,
      scan_started_at = None, scan_completed_at = None\<rparr>"

definition example_db :: db where
  "example_db =
     \<lparr>applications = [app_a \<mapsto> example_application user_a (js ''Shop''),
                      app_b \<mapsto> example_application user_b (js ''Bank'')],
      security_scans = [scan_a \<mapsto> example_scan app_a, scan_b \<mapsto> example_scan app_b],
      vulnerabilities = [], journal = []\<rparr>"

text \<open>The body the page sends, as text and as the value the parser makes of it.\<close>

definition body_text :: "jstring \<Rightarrow> jstring \<Rightarrow> jstring" where
  \<open>body_text scan app = js ''{"scanId":"'' @ scan @ js ''","applicationId":"'' @ app @ js ''"}''\<close>

definition body_json :: "jstring \<Rightarrow> jstring \<Rightarrow> jsval" where
  "body_json scan app = JObj [(js ''scanId'', JStr scan), (js ''applicationId'', JStr app)]"

definition post_request :: "jstring option \<Rightarrow> jstring \<Rightarrow> request" where
  "post_request authorization body =
     \<lparr>req_method = ''POST'', req_authorization = authorization, req_body = body\<rparr>"

definition example_request :: request where
  "example_request = post_request (Some (js ''Bearer token-a'')) (body_text scan_a app_a)"

text \<open>
  The collaborators of the examples: the token of user A is the only one the
  authentication service knows, the parser is given by the texts it is asked about in an
  example and their values (it throws on any other text of the example), the completion
  API gives one answer, and the backend is the one above.
\<close>

definition example_env :: "(jstring \<times> jsval) list \<Rightarrow> ai_response \<Rightarrow> env" where
  "example_env parses answer =
     \<lparr>auth_getUser = (\<lambda>t. if t = js ''token-a'' then Some user_a else None),
      JSON_parse = map_of parses,
      uuid_ok = uuid_shape,
      fetch_completion = (\<lambda>p. Some answer),
      accepts = schema_accepts,
      to_primitive_gt_zero = (\<lambda>v. Inr False),
      now_started = js ''2025-01-01T10:00:00.000Z'',
      now_completed = js ''2025-01-01T10:00:07.000Z'',
      Math_floor_random_60 = 30,
      crypto_randomUUID = js ''e7e7e7e7-3333-4333-8333-33333333333a'',
      engine_message = (\<lambda>x. js ''Unexpected token'')\<rparr>"

text \<open>
  A completion whose first choice has the message content \<open>content\<close>: the text of the
  response (the content quoted as a JSON string) and its value.
\<close>

fun json_escape :: "nat \<Rightarrow> jstring" where
  "json_escape c =
     (if c = 34 then [92, 34] else if c = 92 then [92, 92] else if c = 10 then [92, 110]
      else [c])"

definition completion_text :: "jstring \<Rightarrow> jstring" where
  \<open>completion_text content =
     js ''{"choices":[{"message":{"content":"'' @ concat (map json_escape content)
       @ js ''"}}]}''\<close>

definition completion_json :: "jstring \<Rightarrow> jsval" where
  "completion_json content =
     JObj [(js ''choices'', JArr [JObj [(js ''message'', JObj [(js ''content'', JStr content)])]])]"

definition answering_env :: "jstring \<Rightarrow> (jstring \<times> jsval) list \<Rightarrow> env" where
  "answering_env content parses =
     example_env
       ((body_text scan_a app_a, body_json scan_a app_a)
        # (completion_text content, completion_json content) # parses)
       \<lparr>ai_ok = True, ai_status = 200, ai_body = completion_text content\<rparr>"

text \<open>The model declines: its answer is no JSON.\<close>

definition refusal_env :: env where
  "refusal_env = answering_env (js ''I cannot analyze this.'') []"

text \<open>
  The model answers in the requested format, but writes the severity with a capital
  letter, which the \<^verbatim>\<open>CHECK\<close> of the severity column does not list.
\<close>

definition capitalised_text :: jstring where
  \<open>capitalised_text = js ''{"overall_score":40,"risk_level":"high","vulnerabilities":[{"severity":"High","category":"Injection","title":"SQL injection","description":"Unsanitised input","recommendation":"Use parameters"}]}''\<close>

definition capitalised_results :: jsval where
  "capitalised_results =
     JObj [(js ''overall_score'', JNum 40), (js ''risk_level'', JStr (js ''high'')),
           (js ''vulnerabilities'',
              JArr [JObj [(js ''severity'', JStr (js ''High'')),
                          (js ''category'', JStr (js ''Injection'')),
                          (js ''title'', JStr (js ''SQL injection'')),
                          (js ''description'', JStr (js ''Unsanitised input'')),
                          (js ''recommendation'', JStr (js ''Use parameters''))]])]"

definition capitalised_env :: env where
  "capitalised_env = answering_env capitalised_text [(capitalised_text, capitalised_results)]"

text \<open>
  The answer of the specification's example: an object in a fence tagged
  \<^verbatim>\<open>json\<close>, with a line feed after the opening and before the closing fence.
\<close>

definition fenced_object :: jstring where
  \<open>fenced_object = js ''{"overall_score":10,"risk_level":"high","vulnerabilities":[]}''\<close>

definition fenced_results :: jsval where
  "fenced_results =
     JObj [(js ''overall_score'', JNum 10), (js ''risk_level'', JStr (js ''high'')),
           (js ''vulnerabilities'', JArr [])]"

definition fenced_content :: jstring where
  "fenced_content = fence @ js ''json'' @ [10] @ fenced_object @ [10] @ fence"

definition fenced_env :: env where
  "fenced_env = answering_env fenced_content [(fenced_object, fenced_results)]"

text \<open>
  An answer in the same fence whose object holds three backticks inside a string, as a
  code example written in Markdown does.
\<close>

definition backtick_object :: jstring where
  \<open>backtick_object = js ''{"note":"'' @ fence @ js ''"}''\<close>

definition backtick_content :: jstring where
  "backtick_content = fence @ js ''json'' @ [10] @ backtick_object @ [10] @ fence"

definition backtick_env :: env where
  "backtick_env =
     answering_env backtick_content [(backtick_object, JObj [(js ''note'', JStr fence)])]"

text \<open>
  Collaborators for a request that names the scan \<open>scan\<close> and the application
  \<open>app\<close>; the completion API is never reached in the examples that use them.
\<close>

definition asking_env :: "jstring \<Rightarrow> jstring \<Rightarrow> env" where
  "asking_env scan app =
     example_env [(body_text scan app, body_json scan app)]
       \<lparr>ai_ok = True, ai_status = 200, ai_body = []\<rparr>"

text \<open>The completion API answers with the status 429 and a text of its own.\<close>

definition failing_env :: env where
  "failing_env =
     example_env [(body_text scan_a app_a, body_json scan_a app_a)]
       \<lparr>ai_ok = False, ai_status = 429, ai_body = js ''rate limit exceeded for key sk-1''\<rparr>"

text \<open>A body with a third well-formed identifier beside the two of the schema.\<close>

definition three_ids_text :: jstring where
  \<open>three_ids_text =
     js ''{"scanId":"'' @ scan_a @ js ''","applicationId":"'' @ app_a
       @ js ''","userId":"'' @ user_b @ js ''"}''\<close>

definition three_ids_json :: jsval where
  "three_ids_json =
     JObj [(js ''scanId'', JStr scan_a), (js ''applicationId'', JStr app_a),
           (js ''userId'', JStr user_b)]"

definition three_ids_env :: env where
  "three_ids_env =
     example_env
       [(three_ids_text, three_ids_json),
        (completion_text (js ''I cannot analyze this.''),
         completion_json (js ''I cannot analyze this.''))]
       \<lparr>ai_ok = True, ai_status = 200,
        ai_body = completion_text (js ''I cannot analyze this.'')\<rparr>"

text \<open>A body whose scan identifier is no UUID and whose application is missing.\<close>

definition short_id_text :: jstring where
  \<open>short_id_text = js ''{"scanId":"42"}''\<close>

definition short_id_env :: env where
  "short_id_env =
     example_env [(short_id_text, JObj [(js ''scanId'', JStr (js ''42''))])]
       \<lparr>ai_ok = True, ai_status = 200, ai_body = []\<rparr>"

text \<open>
  An answer whose \<^verbatim>\<open>vulnerabilities\<close> are no list but an object with a
  \<^verbatim>\<open>length\<close> of its own.
\<close>

definition no_list_text :: jstring where
  \<open>no_list_text = js ''{"overall_score":40,"risk_level":"high","vulnerabilities":{"length":-3}}''\<close>

definition no_list_results :: jsval where
  "no_list_results =
     JObj [(js ''overall_score'', JNum 40), (js ''risk_level'', JStr (js ''high'')),
           (js ''vulnerabilities'', JObj [(js ''length'', JNum (- 3))])]"

definition no_list_env :: env where
  "no_list_env = answering_env no_list_text [(no_list_text, no_list_results)]"

text \<open>
  An answer with one vulnerability and a score of 101, which the \<^verbatim>\<open>CHECK\<close> of the
  score column (0 to 100) does not allow.
\<close>

definition over_score_text :: jstring where
  \<open>over_score_text = js ''{"overall_score":101,"risk_level":"high","vulnerabilities":[{"severity":"high","category":"Injection","title":"SQL injection","description":"Unsanitised input","recommendation":"Use parameters"}]}''\<close>

definition over_score_results :: jsval where
  "over_score_results =
     JObj [(js ''overall_score'', JNum 101), (js ''risk_level'', JStr (js ''high'')),
           (js ''vulnerabilities'',
              JArr [JObj [(js ''severity'', JStr (js ''high'')),
                          (js ''category'', JStr (js ''Injection'')),
                          (js ''title'', JStr (js ''SQL injection'')),
                          (js ''description'', JStr (js ''Unsanitised input'')),
                          (js ''recommendation'', JStr (js ''Use parameters''))]])]"

definition over_score_env :: env where
  "over_score_env = answering_env over_score_text [(over_score_text, over_score_results)]"

text \<open>An answer whose list of vulnerabilities holds \<^verbatim>\<open>null\<close>.\<close>

definition null_entry_text :: jstring where
  \<open>null_entry_text = js ''{"overall_score":40,"risk_level":"high","vulnerabilities":[null]}''\<close>

definition null_entry_results :: jsval where
  "null_entry_results =
     JObj [(js ''overall_score'', JNum 40), (js ''risk_level'', JStr (js ''high'')),
           (js ''vulnerabilities'', JArr [JNull])]"

definition null_entry_env :: env where
  "null_entry_env = answering_env null_entry_text [(null_entry_text, null_entry_results)]"

text \<open>A backend that refuses every insert of vulnerabilities and is the one above otherwise.\<close>

definition refusing_inserts :: "db \<Rightarrow> db_write \<Rightarrow> bool" where
  "refusing_inserts d w = (case w of VulnInsert rows \<Rightarrow> False | _ \<Rightarrow> schema_accepts d w)"


section \<open>The extraction of the fenced text\<close>

lemma starts_with_take: "starts_with p s \<longleftrightarrow> take (length p) s = p"
  by (induction p s rule: starts_with.induct) auto

lemma starts_with_append_self: "starts_with p (p @ s)"
  by (simp add: starts_with_take)

lemma contains_suffix: "starts_with p t \<Longrightarrow> contains p (u @ t)"
  by (induction u) (cases t; auto)+

lemma not_ws_backtick: "\<not> is_ws 96"
  by (simp add: is_ws_def)

lemma closing_fence:
  "match_here [WsStar, Chars fence] s =
     (if starts_with fence (dropWhile is_ws s) then Some [] else None)"
proof (induction s)
  case Nil
  show ?case by (simp add: fence_def)
next
  case (Cons c cs)
  show ?case
  proof (cases "is_ws c")
    case True
    then have "c \<noteq> 96" using not_ws_backtick by auto
    then have "\<not> starts_with fence (c # cs)" by (simp add: fence_def)
    with True Cons show ?thesis by simp
  next
    case False
    then show ?thesis by simp
  qed
qed

lemma lazy_unfold:
  "match_here (AnyLazy # r) s =
     (case match_here r s of
        Some _ \<Rightarrow> Some []
      | None \<Rightarrow> (case s of [] \<Rightarrow> None | c # cs \<Rightarrow> map_option ((#) c) (match_here (AnyLazy # r) cs)))"
  by (cases s) (auto split: option.splits)

lemma lazy_capture:
  assumes "\<And>u t. b = u @ t \<Longrightarrow> t \<noteq> [] \<Longrightarrow> \<not> starts_with fence (dropWhile is_ws (t @ rest))"
    and "starts_with fence (dropWhile is_ws rest)"
  shows "match_here [AnyLazy, WsStar, Chars fence] (b @ rest) = Some b"
  using assms(1)
proof (induction b)
  case Nil
  show ?case using assms(2) by (subst lazy_unfold) (simp add: closing_fence)
next
  case (Cons c b)
  have no: "\<not> starts_with fence (dropWhile is_ws ((c # b) @ rest))"
    using Cons.prems[of "[]" "c # b"] by simp
  have ih: "match_here [AnyLazy, WsStar, Chars fence] (b @ rest) = Some b"
  proof (rule Cons.IH)
    fix u t assume "b = u @ t" "t \<noteq> []"
    then show "\<not> starts_with fence (dropWhile is_ws (t @ rest))"
      using Cons.prems[of "c # u" t] by simp
  qed
  show ?case
    using no ih by (subst lazy_unfold) (simp add: closing_fence del: match_here.simps)
qed

lemma greedy_ws:
  assumes "list_all is_ws ws" and "match_here r s = Some g"
    and "s = [] \<or> \<not> is_ws (hd s)"
  shows "match_here (WsStar # r) (ws @ s) = Some g"
  using assms
proof (induction ws)
  case Nil
  then show ?case by (cases s) auto
next
  case (Cons c ws)
  then show ?case by simp
qed

lemma last_dropWhile: "dropWhile P xs \<noteq> [] \<Longrightarrow> last (dropWhile P xs) = last xs"
  by (induction xs) (auto split: if_splits)

lemma starts_with_fence_short:
  assumes "starts_with fence (t @ r)" and "t \<noteq> []" and "last t \<noteq> 96"
  shows "starts_with fence t"
proof (cases t)
  case Nil
  with assms show ?thesis by simp
next
  case t1: (Cons x t1)
  show ?thesis
  proof (cases t1)
    case Nil
    with t1 assms show ?thesis by (simp add: fence_def)
  next
    case t2: (Cons y t2)
    show ?thesis
    proof (cases t2)
      case Nil
      with t1 t2 assms show ?thesis by (simp add: fence_def)
    next
      case (Cons z t3)
      with t1 t2 assms show ?thesis by (simp add: fence_def)
    qed
  qed
qed

lemma no_early_close:
  assumes b: "b = u @ t" and t: "t \<noteq> []" and l: "last b = 125"
    and nf: "\<not> contains fence b"
  shows "\<not> starts_with fence (dropWhile is_ws (t @ r))"
proof
  assume sw: "starts_with fence (dropWhile is_ws (t @ r))"
  have lt: "last t = 125" using b t l by simp
  have nws: "\<not> is_ws 125" by (simp add: is_ws_def)
  have mem: "last t \<in> set t" using t by simp
  have dw: "dropWhile is_ws (t @ r) = dropWhile is_ws t @ r"
    using mem lt nws by (intro dropWhile_append1[of "last t"]) auto
  have ne: "dropWhile is_ws t \<noteq> []"
    using mem lt nws by (auto simp: dropWhile_eq_Nil_conv)
  have "last (dropWhile is_ws t) = 125" using last_dropWhile[OF ne] lt by simp
  then have "starts_with fence (dropWhile is_ws t)"
    using sw dw ne starts_with_fence_short[of "dropWhile is_ws t" r] by simp
  moreover have "b = (u @ takeWhile is_ws t) @ dropWhile is_ws t" using b by simp
  ultimately have "contains fence b" using contains_suffix by metis
  with nf show False by simp
qed

lemma fenced_body:
  assumes ws1: "list_all is_ws ws1" and ws2: "list_all is_ws ws2"
    and ne: "b \<noteq> []" and h: "hd b = 123" and l: "last b = 125"
    and nf: "\<not> contains fence b"
  shows "match_here [WsStar, AnyLazy, WsStar, Chars fence] (ws1 @ b @ ws2 @ fence @ post) = Some b"
proof -
  have "dropWhile is_ws (ws2 @ fence @ post) = fence @ post"
    using ws2 not_ws_backtick by (induction ws2) (auto simp: fence_def)
  then have close: "starts_with fence (dropWhile is_ws (ws2 @ fence @ post))"
    by (simp add: starts_with_append_self)
  have cap: "match_here [AnyLazy, WsStar, Chars fence] (b @ ws2 @ fence @ post) = Some b"
    by (rule lazy_capture) (use no_early_close[OF _ _ l nf] close in auto)
  have "\<not> is_ws (hd (b @ ws2 @ fence @ post))" using ne h by (simp add: is_ws_def)
  then show ?thesis using greedy_ws[OF ws1 cap] by simp
qed

lemma re_match_skip:
  assumes "\<And>u t. pre = u @ t \<Longrightarrow> t \<noteq> [] \<Longrightarrow> \<not> starts_with l (t @ s)"
  shows "re_match (Chars l # r) (pre @ s) = re_match (Chars l # r) s"
  using assms
proof (induction pre)
  case Nil
  show ?case by simp
next
  case (Cons c pre)
  have "\<not> starts_with l ((c # pre) @ s)" using Cons.prems[of "[]" "c # pre"] by simp
  moreover have "re_match (Chars l # r) (pre @ s) = re_match (Chars l # r) s"
  proof (rule Cons.IH)
    fix u t assume "pre = u @ t" "t \<noteq> []"
    then show "\<not> starts_with l (t @ s)" using Cons.prems[of "c # u" t] by simp
  qed
  ultimately show ?case by simp
qed

lemma re_match_here:
  "match_here re s = Some g \<Longrightarrow> re_match re s = Some g"
  by (cases s) auto

lemma re_match_None: "\<not> contains l s \<Longrightarrow> re_match (Chars l # r) s = None"
  by (induction s) auto

lemma starts_with_straddle:
  assumes "t \<noteq> []"
  shows "starts_with l (t @ l @ s) \<longleftrightarrow> starts_with l (t @ butlast l)"
proof (cases "l = []")
  case True then show ?thesis by simp
next
  case False
  let ?n = "length l"
  have k: "?n - length t \<le> ?n - 1" using assms by (cases t) auto
  have "?n - length t < ?n" using assms False by (cases t) auto
  then have "take (?n - length t) (l @ s) = take (?n - length t) (butlast l)"
    by (simp add: take_butlast)
  then show ?thesis by (simp add: starts_with_take)
qed

lemma no_tag_before:
  assumes nc: "\<not> contains l (pre @ butlast l)" and b: "pre = u @ t" and t: "t \<noteq> []"
  shows "\<not> starts_with l (t @ l @ s)"
proof -
  have "\<not> starts_with l (t @ butlast l)"
    using nc contains_suffix[of l "t @ butlast l" u] b by auto
  then show ?thesis using starts_with_straddle[OF t] by simp
qed

lemma jsonStr_tagged:
  assumes pre: "\<not> contains (fence @ js ''json'') (pre @ butlast (fence @ js ''json''))"
    and ws1: "list_all is_ws ws1" and ws2: "list_all is_ws ws2"
    and ne: "b \<noteq> []" and h: "hd b = 123" and l: "last b = 125"
    and nf: "\<not> contains fence b"
  shows "jsonStr (pre @ fence @ js ''json'' @ ws1 @ b @ ws2 @ fence @ post) = b"
proof -
  let ?tag = "fence @ js ''json''"
  let ?rest = "ws1 @ b @ ws2 @ fence @ post"
  have here: "match_here json_fence_re (?tag @ ?rest) = Some b"
    using fenced_body[OF ws1 ws2 ne h l nf, of post]
    using starts_with_append_self[of ?tag ?rest] by (simp add: json_fence_re_def)
  have "re_match json_fence_re (pre @ ?tag @ ?rest) = re_match json_fence_re (?tag @ ?rest)"
    unfolding json_fence_re_def
    by (rule re_match_skip) (use no_tag_before[OF pre] in auto)
  then have "re_match json_fence_re (pre @ ?tag @ ?rest) = Some b"
    using re_match_here[OF here] by simp
  then show ?thesis by (simp add: jsonStr_def jsonMatch_def)
qed

lemma no_backtick_skip:
  assumes "96 \<notin> set pre" "pre = u @ t" "t \<noteq> []"
  shows "\<not> starts_with fence (t @ s)"
  using assms by (cases t) (auto simp: fence_def)

lemma jsonStr_untagged:
  assumes pre: "96 \<notin> set pre"
    and nt: "\<not> contains (fence @ js ''json'') (pre @ fence @ ws1 @ b @ ws2 @ fence @ post)"
    and ws1: "list_all is_ws ws1" and ws2: "list_all is_ws ws2"
    and ne: "b \<noteq> []" and h: "hd b = 123" and l: "last b = 125"
    and nf: "\<not> contains fence b"
  shows "jsonStr (pre @ fence @ ws1 @ b @ ws2 @ fence @ post) = b"
proof -
  let ?rest = "ws1 @ b @ ws2 @ fence @ post"
  have none: "re_match json_fence_re (pre @ fence @ ?rest) = None"
    unfolding json_fence_re_def using nt by (rule re_match_None)
  have here: "match_here any_fence_re (fence @ ?rest) = Some b"
    using fenced_body[OF ws1 ws2 ne h l nf, of post]
    using starts_with_append_self[of fence ?rest] by (simp add: any_fence_re_def)
  have "re_match any_fence_re (pre @ fence @ ?rest) = re_match any_fence_re (fence @ ?rest)"
    unfolding any_fence_re_def
    by (rule re_match_skip) (use no_backtick_skip[OF pre] in auto)
  then have "re_match any_fence_re (pre @ fence @ ?rest) = Some b"
    using re_match_here[OF here] by simp
  then show ?thesis using none by (simp add: jsonStr_def jsonMatch_def)
qed

lemma starts_with_append_pattern: "starts_with (p @ q) s \<Longrightarrow> starts_with p s"
  by (induction p s rule: starts_with.induct) auto

lemma contains_append_pattern: "contains (p @ q) s \<Longrightarrow> contains p s"
  by (induction s) (auto dest: starts_with_append_pattern)

lemma jsonStr_raw:
  assumes "\<not> contains fence content"
  shows "jsonStr content = content"
proof -
  have "\<not> contains (fence @ js ''json'') content"
    using assms contains_append_pattern by blast
  then have "re_match json_fence_re content = None"
    unfolding json_fence_re_def by (rule re_match_None)
  moreover have "re_match any_fence_re content = None"
    unfolding any_fence_re_def using assms by (rule re_match_None)
  ultimately show ?thesis by (simp add: jsonStr_def jsonMatch_def)
qed

lemma dropWhile_hd: "xs \<noteq> [] \<Longrightarrow> \<not> P (hd xs) \<Longrightarrow> dropWhile P xs = xs"
  by (cases xs) auto

lemma trim_id:
  assumes "b \<noteq> []" and "\<not> is_ws (hd b)" and "\<not> is_ws (last b)"
  shows "trim b = b"
proof -
  have "dropWhile is_ws (rev b) = rev b"
    using assms by (intro dropWhile_hd) (auto simp: hd_rev)
  then show ?thesis using assms by (simp add: trim_def dropWhile_hd)
qed

section \<open>What a write leaves alone\<close>

lemma journal_db_write [simp]:
  "journal (db_write e w d) = journal d @ [(w, accepts e d w)]"
  by (simp add: db_write_def)

lemma applications_ScanRunning [simp]:
  "applications (db_write e (ScanRunning i t) d) = applications d"
  by (auto simp: db_write_def split: jsval.splits option.splits)

lemma applications_ScanCompleted [simp]:
  "applications (db_write e (ScanCompleted i a b c f t) d) = applications d"
  by (auto simp: db_write_def split: jsval.splits option.splits)

lemma applications_VulnInsert [simp]:
  "applications (db_write e (VulnInsert rows) d) = applications d"
  by (auto simp: db_write_def split: jsval.splits option.splits)

lemma security_scans_AppStatus [simp]:
  "security_scans (db_write e (AppStatus i st) d) = security_scans d"
  by (auto simp: db_write_def split: jsval.splits option.splits)

lemma security_scans_VulnInsert [simp]:
  "security_scans (db_write e (VulnInsert rows) d) = security_scans d"
  by (auto simp: db_write_def split: jsval.splits option.splits)

lemma vulnerabilities_db_write:
  "vulnerabilities (db_write e w d) =
     (case w of
        VulnInsert rows \<Rightarrow> if accepts e d w then vulnerabilities d @ rows else vulnerabilities d
      | _ \<Rightarrow> vulnerabilities d)"
  by (cases w) (auto simp: db_write_def split: jsval.splits option.splits)

lemma vulnerabilities_ScanRunning [simp]:
  "vulnerabilities (db_write e (ScanRunning i t) d) = vulnerabilities d"
  by (simp add: vulnerabilities_db_write)

lemma vulnerabilities_ScanCompleted [simp]:
  "vulnerabilities (db_write e (ScanCompleted i a b c f t) d) = vulnerabilities d"
  by (simp add: vulnerabilities_db_write)

lemma vulnerabilities_AppStatus [simp]:
  "vulnerabilities (db_write e (AppStatus i st) d) = vulnerabilities d"
  by (simp add: vulnerabilities_db_write)

lemma scan_application_id_db_write:
  "map_option scan_application_id (security_scans (db_write e w d) s) =
   map_option scan_application_id (security_scans d s)"
  by (cases w) (auto simp: db_write_def split: jsval.splits option.splits)

lemma app_fixed_db_write:
  "map_option (\<lambda>a. (app_user_id a, build_prompt a, app_name a)) (applications (db_write e w d) s) =
   map_option (\<lambda>a. (app_user_id a, build_prompt a, app_name a)) (applications d s)"
  by (cases w) (auto simp: db_write_def build_prompt_def split: jsval.splits option.splits)

section \<open>The path of a run through the handler\<close>

lemma serve_try_valid:
  assumes "req_authorization req = Some h" and "h \<noteq> []"
    and "auth_getUser e (replace_first (js ''Bearer '') [] h) = Some uid"
    and "JSON_parse e (req_body req) = Some body"
    and "requestSchema_safeParse e body = Inr (sid, aid)"
  shows "serve_try e req d = run_scan e uid sid aid d"
  using assms by (simp add: serve_try_def)

lemma run_scan_checked:
  assumes "applications d aid = Some app" and "app_user_id app = uid"
    and "security_scans d sid = Some sc" and "scan_application_id sc = aid"
  shows "run_scan e uid sid aid d =
     (let d2 = db_write e (AppStatus (JStr aid) (js ''scanning''))
                 (db_write e (ScanRunning (JStr sid) (now_started e)) d) in
      case fetch_completion e (build_prompt app) of
        None \<Rightarrow> (Throw TypeError, d2)
      | Some aiResponse \<Rightarrow>
          if \<not> ai_ok aiResponse then (Return (scan_failed_response e), d2)
          else
            (case ai_content e aiResponse of
               Inl x \<Rightarrow> (Throw x, d2)
             | Inr content \<Rightarrow>
                 persist_results e (JStr sid) (JStr aid) (scanResults e app content) d2))"
proof -
  let ?d1 = "db_write e (ScanRunning (JStr sid) (now_started e)) d"
  obtain sc' where "security_scans ?d1 sid = Some sc'" "scan_application_id sc' = aid"
    using scan_application_id_db_write[of e "ScanRunning (JStr sid) (now_started e)" d sid] assms
    by auto
  then show ?thesis using assms by (simp add: run_scan_def Let_def)
qed

lemma get_prop_Inr: "get_prop v k = Inr x \<Longrightarrow> get_prop v k' = Inr (prop_of v k')"
  by (cases v) (auto simp: prop_of_def)

lemma get_prop_Inl: "get_prop v k = Inl x \<Longrightarrow> get_prop v k' = Inl x"
  by (cases v) auto

lemma length_key: "get_prop (JArr xs) (js ''length'') = Inr (JNum (of_nat (length xs)))"
  by simp

lemma map_rows_length: "map_rows sid xs = Inr rows \<Longrightarrow> length rows = length xs"
  by (induction xs arbitrary: rows) (auto simp: bind_exn_def split: sum.splits)

lemma vulnerability_row_scan_id:
  "vulnerability_row sid v = Inr r \<Longrightarrow> vuln_scan_id r = sid \<and> vuln_status r = js ''open''"
  by (auto simp: vulnerability_row_def bind_exn_def split: sum.splits)

lemma map_rows_scan_id:
  "map_rows sid xs = Inr rows \<Longrightarrow> r \<in> set rows \<Longrightarrow> vuln_scan_id r = sid \<and> vuln_status r = js ''open''"
  by (induction xs arbitrary: rows)
     (auto simp: bind_exn_def split: sum.splits dest: vulnerability_row_scan_id)

lemma map_rows_Nil_iff: "map_rows sid xs = Inr [] \<longleftrightarrow> xs = []"
  by (cases xs) (auto simp: bind_exn_def split: sum.splits)

lemma scan_update_list:
  assumes "get_prop r (js ''vulnerabilities'') = Inr (JArr xs)"
  shows "scan_update e sid r =
     Inr (ScanCompleted sid (prop_of r (js ''overall_score'')) (prop_of r (js ''risk_level''))
            (JNum (of_nat (length xs))) (scanDuration e) (now_completed e))"
  using assms get_prop_Inr[OF assms, of "js ''overall_score''"]
    get_prop_Inr[OF assms, of "js ''risk_level''"]
  by (simp add: scan_update_def bind_exn_def del: get_prop.simps add: length_key)

lemma has_vulnerabilities_list:
  assumes "get_prop r (js ''vulnerabilities'') = Inr (JArr xs)"
  shows "has_vulnerabilities e r = Inr (xs \<noteq> [])"
  using assms by (simp add: has_vulnerabilities_def bind_exn_def del: get_prop.simps add: length_key)

lemma vulnerabilitiesToInsert_list:
  assumes "get_prop r (js ''vulnerabilities'') = Inr (JArr xs)"
  shows "vulnerabilitiesToInsert sid r = map_rows sid xs"
  using assms by (simp add: vulnerabilitiesToInsert_def bind_exn_def)

lemma persist_list:
  assumes vs: "get_prop r (js ''vulnerabilities'') = Inr (JArr xs)"
    and rows: "map_rows sid xs = Inr rows"
  shows "persist_results e sid aid r d =
     (Return (json_response 200 (success_payload r)),
      db_write e (AppStatus aid (js ''completed''))
        (if xs = [] then
           db_write e (ScanCompleted sid (prop_of r (js ''overall_score''))
              (prop_of r (js ''risk_level'')) (JNum (of_nat (length xs))) (scanDuration e)
              (now_completed e)) d
         else
           db_write e (VulnInsert rows)
             (db_write e (ScanCompleted sid (prop_of r (js ''overall_score''))
                (prop_of r (js ''risk_level'')) (JNum (of_nat (length xs))) (scanDuration e)
                (now_completed e)) d)))"
  by (simp add: persist_results_def scan_update_list[OF vs] has_vulnerabilities_list[OF vs]
      vulnerabilitiesToInsert_list[OF vs] rows mark_completed_def)

lemma persist_Return:
  assumes "persist_results e sid aid r d = (Return resp, d')"
  shows "resp = json_response 200 (success_payload r)"
  using assms
  by (auto simp: persist_results_def mark_completed_def Let_def split: sum.splits bool.splits)

lemma persist_Return_list:
  assumes run: "persist_results e sid aid r d = (Return resp, d')"
    and vs: "get_prop r (js ''vulnerabilities'') = Inr (JArr xs)"
  shows "\<exists>rows. map_rows sid xs = Inr rows"
proof (cases "map_rows sid xs")
  case (Inl x)
  then have "xs \<noteq> []" by (cases xs) auto
  with run Inl show ?thesis
    by (simp add: persist_results_def scan_update_list[OF vs] has_vulnerabilities_list[OF vs]
        vulnerabilitiesToInsert_list[OF vs])
next
  case (Inr rows)
  then show ?thesis by blast
qed

lemma run_scan_success:
  assumes "run_scan e uid sid aid d = (Return resp, d')" and "resp_status resp = 200"
  shows "\<exists>app sc ai content.
     applications d aid = Some app \<and> app_user_id app = uid \<and>
     security_scans d sid = Some sc \<and> scan_application_id sc = aid \<and>
     fetch_completion e (build_prompt app) = Some ai \<and> ai_ok ai \<and>
     ai_content e ai = Inr content \<and>
     persist_results e (JStr sid) (JStr aid) (scanResults e app content)
       (db_write e (AppStatus (JStr aid) (js ''scanning''))
          (db_write e (ScanRunning (JStr sid) (now_started e)) d)) = (Return resp, d')"
proof -
  let ?d1 = "db_write e (ScanRunning (JStr sid) (now_started e)) d"
  from assms obtain app where app: "applications d aid = Some app"
    by (auto simp: run_scan_def Let_def json_response_def split: option.splits)
  from assms app have own: "app_user_id app = uid"
    by (auto simp: run_scan_def Let_def json_response_def split: option.splits if_splits)
  from assms app own obtain sc1 where sc1: "security_scans ?d1 sid = Some sc1"
    "scan_application_id sc1 = aid"
    by (auto simp: run_scan_def Let_def json_response_def split: option.splits if_splits)
  then obtain sc where sc: "security_scans d sid = Some sc" "scan_application_id sc = aid"
    using scan_application_id_db_write[of e "ScanRunning (JStr sid) (now_started e)" d sid]
    by (cases "security_scans d sid") auto
  show ?thesis
    using assms(1,2)
    unfolding run_scan_checked[OF app own sc]
    by (auto simp: Let_def app own sc scan_failed_response_def json_response_def
        split: option.splits if_splits sum.splits)
qed

lemma serve_success:
  assumes "serve e req d = (resp, d')" and "resp_status resp = 200" and "resp_body resp \<noteq> None"
  shows "req_method req \<noteq> ''OPTIONS'' \<and> (\<exists>h uid body sid aid.
     req_authorization req = Some h \<and> h \<noteq> [] \<and>
     auth_getUser e (replace_first (js ''Bearer '') [] h) = Some uid \<and>
     JSON_parse e (req_body req) = Some body \<and>
     requestSchema_safeParse e body = Inr (sid, aid) \<and>
     run_scan e uid sid aid d = (Return resp, d'))"
  using assms
  by (auto simp: serve_def serve_try_def preflight_def json_response_def scan_failed_response_def
      invalid_request_def
      split: if_splits option.splits sum.splits prod.splits outcome.splits)

lemma success_payload_inj [simp]: "success_payload a = success_payload b \<longleftrightarrow> a = b"
  by (simp add: success_payload_def)

lemma scan_kept:
  "security_scans d s = Some sc \<Longrightarrow>
   \<exists>sc'. security_scans (db_write e w d) s = Some sc' \<and> scan_application_id sc' = scan_application_id sc"
  using scan_application_id_db_write[of e w d s] by (cases "security_scans (db_write e w d) s") auto

lemma scan_completed_row:
  assumes "security_scans d s = Some sc" and "accepts e d (ScanCompleted (JStr s) a b (JNum n) f t)"
  shows "\<exists>sc'. security_scans (db_write e (ScanCompleted (JStr s) a b (JNum n) f t) d) s = Some sc'
     \<and> scan_status sc' = js ''completed'' \<and> scan_vulnerabilities_found sc' = JNum n"
  using assms by (simp add: db_write_def patch_def)

lemma serve_success_state:
  assumes run: "serve e req d = (resp, d')"
    and ok: "resp_status resp = 200" and body: "resp_body resp = Some (success_payload results)"
    and list: "get_prop results (js ''vulnerabilities'') = Inr (JArr xs)"
  shows "\<exists>uid sid aid app sc rows w b.
     req_method req \<noteq> ''OPTIONS'' \<and>
     JSON_parse e (req_body req) = Some b \<and> requestSchema_safeParse e b = Inr (sid, aid) \<and>
     applications d aid = Some app \<and> app_user_id app = uid \<and>
     security_scans d sid = Some sc \<and> scan_application_id sc = aid \<and>
     serve_try e req d = run_scan e uid sid aid d \<and>
     map_rows (JStr sid) xs = Inr rows \<and>
     w = ScanCompleted (JStr sid) (prop_of results (js ''overall_score''))
           (prop_of results (js ''risk_level'')) (JNum (of_nat (length xs))) (scanDuration e)
           (now_completed e) \<and>
     resp = json_response 200 (success_payload results) \<and>
     d' = db_write e (AppStatus (JStr aid) (js ''completed''))
            (if xs = [] then
               db_write e w (db_write e (AppStatus (JStr aid) (js ''scanning''))
                 (db_write e (ScanRunning (JStr sid) (now_started e)) d))
             else
               db_write e (VulnInsert rows)
                 (db_write e w (db_write e (AppStatus (JStr aid) (js ''scanning''))
                   (db_write e (ScanRunning (JStr sid) (now_started e)) d))))"
proof -
  from serve_success[OF run ok] body obtain h uid b sid aid where
    m: "req_method req \<noteq> ''OPTIONS''" and
    p: "req_authorization req = Some h" "h \<noteq> []"
       "auth_getUser e (replace_first (js ''Bearer '') [] h) = Some uid"
       "JSON_parse e (req_body req) = Some b" "requestSchema_safeParse e b = Inr (sid, aid)" and
    rs: "run_scan e uid sid aid d = (Return resp, d')"
    by auto
  let ?d2 = "db_write e (AppStatus (JStr aid) (js ''scanning''))
               (db_write e (ScanRunning (JStr sid) (now_started e)) d)"
  from run_scan_success[OF rs ok] obtain app sc ai content where
    a: "applications d aid = Some app" "app_user_id app = uid"
       "security_scans d sid = Some sc" "scan_application_id sc = aid" and
    pr: "persist_results e (JStr sid) (JStr aid) (scanResults e app content) ?d2 = (Return resp, d')"
    by blast
  have r: "resp = json_response 200 (success_payload (scanResults e app content))"
    using persist_Return[OF pr] .
  with body have eq: "scanResults e app content = results" by (simp add: json_response_def)
  from persist_Return_list[OF pr[unfolded eq] list] obtain rows where
    rows: "map_rows (JStr sid) xs = Inr rows" by blast
  have "d' = snd (persist_results e (JStr sid) (JStr aid) results ?d2)"
    using pr eq by simp
  then have "d' = db_write e (AppStatus (JStr aid) (js ''completed''))
            (if xs = [] then
               db_write e (ScanCompleted (JStr sid) (prop_of results (js ''overall_score''))
           (prop_of results (js ''risk_level'')) (JNum (of_nat (length xs))) (scanDuration e)
           (now_completed e)) ?d2
             else
               db_write e (VulnInsert rows)
                 (db_write e (ScanCompleted (JStr sid) (prop_of results (js ''overall_score''))
           (prop_of results (js ''risk_level'')) (JNum (of_nat (length xs))) (scanDuration e)
           (now_completed e)) ?d2))"
    unfolding persist_list[OF list rows] by simp
  with m a rows r eq serve_try_valid[OF p] p(4,5) show ?thesis by blast
qed


lemma serve_valid:
  assumes "req_method req \<noteq> ''OPTIONS''"
    and "req_authorization req = Some h" and "h \<noteq> []"
    and "auth_getUser e (replace_first (js ''Bearer '') [] h) = Some uid"
    and "JSON_parse e (req_body req) = Some body"
    and "requestSchema_safeParse e body = Inr (sid, aid)"
  shows "serve e req d =
     (case run_scan e uid sid aid d of
        (Return r, d') \<Rightarrow> (r, d')
      | (Throw x, d') \<Rightarrow> (scan_failed_response e, d'))"
  using assms by (simp add: serve_def serve_try_valid[OF assms(2-6)])

lemma scanResults_unparseable:
  assumes "case content of JStr c \<Rightarrow> JSON_parse e (trim (jsonStr c)) = None | _ \<Rightarrow> True"
  shows "scanResults e app content = fallback app"
  using assms by (cases content) (auto simp: scanResults_def)

lemma fallback_list:
  "get_prop (fallback app) (js ''vulnerabilities'') = Inr (JArr [fallback_vulnerability app])"
  by (simp add: fallback_def js_def)

lemma fallback_rows: "\<exists>rows. map_rows sid [fallback_vulnerability app] = Inr rows"
  by (simp add: fallback_vulnerability_def vulnerability_row_def bind_exn_def)


lemma uuid_field_Inr:
  "uuid_field e kvs k = Inr s \<longleftrightarrow> map_of kvs k = Some (JStr s) \<and> uuid_ok e s"
  by (auto simp: uuid_field_def split: option.splits jsval.splits)

lemma uuid_field_well_formed: "uuid_field e kvs k = Inr s \<Longrightarrow> well_formed e kvs k"
  by (simp add: uuid_field_Inr well_formed_def)

lemma uuid_field_Inl:
  "uuid_field e kvs k = Inl iss \<longleftrightarrow> \<not> well_formed e kvs k \<and> iss = [violation kvs k]"
  by (auto simp: uuid_field_def well_formed_def violation_def split: option.splits jsval.splits)

lemma safeParse_Inr:
  "requestSchema_safeParse e body = Inr (s, a) \<longleftrightarrow>
     (\<exists>kvs. body = JObj kvs \<and>
        map_of kvs (js ''scanId'') = Some (JStr s) \<and> uuid_ok e s \<and>
        map_of kvs (js ''applicationId'') = Some (JStr a) \<and> uuid_ok e a)"
proof (cases body)
  case (JObj kvs)
  have "requestSchema_safeParse e (JObj kvs) = Inr (s, a) \<longleftrightarrow>
      uuid_field e kvs (js ''scanId'') = Inr s \<and> uuid_field e kvs (js ''applicationId'') = Inr a"
    by (auto simp: requestSchema_safeParse_def split: sum.splits)
  then show ?thesis using JObj by (simp add: uuid_field_Inr)
qed (simp_all add: requestSchema_safeParse_def)

lemma safeParse_well_formed:
  assumes "requestSchema_safeParse e body = Inr p"
  shows "\<exists>kvs. body = JObj kvs \<and> well_formed e kvs (js ''scanId'') \<and>
     well_formed e kvs (js ''applicationId'')"
proof -
  from assms have "requestSchema_safeParse e body = Inr (fst p, snd p)" by simp
  then show ?thesis unfolding safeParse_Inr by (auto simp: well_formed_def)
qed

lemma safeParse_Inl:
  assumes "requestSchema_safeParse e body = Inl issues"
  shows "issues =
     (case body of
        JObj kvs \<Rightarrow>
          map (violation kvs)
            (filter (\<lambda>k. \<not> well_formed e kvs k) [js ''scanId'', js ''applicationId''])
      | _ \<Rightarrow> [Invalid_type (js ''object'') (getParsedType body) []])"
proof (cases body)
  case (JObj kvs)
  show ?thesis
  proof (cases "uuid_field e kvs (js ''scanId'')")
    case i: (Inl i1)
    show ?thesis
    proof (cases "uuid_field e kvs (js ''applicationId'')")
      case j: (Inl i2)
      from assms i j JObj have "issues = i1 @ i2" by (simp add: requestSchema_safeParse_def)
      with i j JObj show ?thesis by (simp add: uuid_field_Inl)
    next
      case j: (Inr a)
      from assms i j JObj have "issues = i1" by (simp add: requestSchema_safeParse_def)
      with i uuid_field_well_formed[OF j] JObj show ?thesis by (simp add: uuid_field_Inl)
    qed
  next
    case i: (Inr s)
    show ?thesis
    proof (cases "uuid_field e kvs (js ''applicationId'')")
      case j: (Inl i2)
      from assms i j JObj have "issues = i2" by (simp add: requestSchema_safeParse_def)
      with j uuid_field_well_formed[OF i] JObj show ?thesis by (simp add: uuid_field_Inl)
    next
      case j: (Inr a)
      with assms i JObj show ?thesis by (simp add: requestSchema_safeParse_def)
    qed
  qed
qed (use assms in \<open>simp_all add: requestSchema_safeParse_def\<close>)


lemma body_no_json:
  assumes "req_method req \<noteq> ''OPTIONS''"
    and "req_authorization req = Some h" and "h \<noteq> []"
    and "auth_getUser e (replace_first (js ''Bearer '') [] h) = Some uid"
    and "JSON_parse e (req_body req) = None"
  shows "serve e req d = (scan_failed_response e, d)"
  using assms by (simp add: serve_def serve_try_def)

lemma serve_unauthenticated:
  assumes "req_method req \<noteq> ''OPTIONS''"
    and "case req_authorization req of
           None \<Rightarrow> True
         | Some h \<Rightarrow> h = [] \<or> auth_getUser e (replace_first (js ''Bearer '') [] h) = None"
  shows "resp_status (fst (serve e req d)) = 401 \<and> snd (serve e req d) = d"
  using assms
  by (auto simp: serve_def serve_try_def json_response_def split: option.splits)

lemma serve_completion_failed:
  assumes m: "req_method req \<noteq> ''OPTIONS''"
    and auth: "req_authorization req = Some h" "h \<noteq> []"
      "auth_getUser e (replace_first (js ''Bearer '') [] h) = Some uid"
    and body: "JSON_parse e (req_body req) = Some body"
      "requestSchema_safeParse e body = Inr (sid, aid)"
    and rows: "applications d aid = Some app" "app_user_id app = uid"
      "security_scans d sid = Some sc" "scan_application_id sc = aid"
    and ai: "fetch_completion e (build_prompt app) = Some ai" "\<not> ai_ok ai"
  shows "serve e req d =
     (json_response 500
        (JObj [(js ''error'', JStr scan_failed), (js ''errorId'', JStr (crypto_randomUUID e))]),
      db_write e (AppStatus (JStr aid) (js ''scanning''))
        (db_write e (ScanRunning (JStr sid) (now_started e)) d))"
  unfolding serve_valid[OF m auth body] run_scan_checked[OF rows]
  by (simp add: Let_def ai scan_failed_response_def)

lemma started_rows:
  assumes rows: "applications d aid = Some app" "security_scans d sid = Some sc"
    and acc: "accepts e d (ScanRunning (JStr sid) t)"
      "accepts e (db_write e (ScanRunning (JStr sid) t) d) (AppStatus (JStr aid) (js ''scanning''))"
  shows "map_option scan_status
           (security_scans (db_write e (AppStatus (JStr aid) (js ''scanning''))
              (db_write e (ScanRunning (JStr sid) t) d)) sid) = Some (js ''running'') \<and>
         map_option app_status
           (applications (db_write e (AppStatus (JStr aid) (js ''scanning''))
              (db_write e (ScanRunning (JStr sid) t) d)) aid) = Some (js ''scanning'')"
  using assms by (simp add: db_write_def)


lemma serve_success_path:
  assumes run: "serve e req d = (resp, d')"
    and ok: "resp_status resp = 200" and body: "resp_body resp = Some (success_payload results)"
  shows "\<exists>uid sid aid app sc ai content.
     req_method req \<noteq> ''OPTIONS'' \<and>
     (\<forall>dx. serve_try e req dx = run_scan e uid sid aid dx) \<and>
     applications d aid = Some app \<and> app_user_id app = uid \<and>
     security_scans d sid = Some sc \<and> scan_application_id sc = aid \<and>
     fetch_completion e (build_prompt app) = Some ai \<and> ai_ok ai \<and>
     ai_content e ai = Inr content \<and> scanResults e app content = results"
proof -
  from serve_success[OF run ok] body obtain h uid b sid aid where
    m: "req_method req \<noteq> ''OPTIONS''" and
    p: "req_authorization req = Some h" "h \<noteq> []"
       "auth_getUser e (replace_first (js ''Bearer '') [] h) = Some uid"
       "JSON_parse e (req_body req) = Some b" "requestSchema_safeParse e b = Inr (sid, aid)" and
    rs: "run_scan e uid sid aid d = (Return resp, d')"
    by auto
  let ?d2 = "db_write e (AppStatus (JStr aid) (js ''scanning''))
               (db_write e (ScanRunning (JStr sid) (now_started e)) d)"
  from run_scan_success[OF rs ok] obtain app sc ai content where
    a: "applications d aid = Some app" "app_user_id app = uid"
       "security_scans d sid = Some sc" "scan_application_id sc = aid"
       "fetch_completion e (build_prompt app) = Some ai" "ai_ok ai"
       "ai_content e ai = Inr content" and
    pr: "persist_results e (JStr sid) (JStr aid) (scanResults e app content) ?d2 = (Return resp, d')"
    by blast
  have "resp = json_response 200 (success_payload (scanResults e app content))"
    using persist_Return[OF pr] .
  with body have eq: "scanResults e app content = results" by (simp add: json_response_def)
  have "\<forall>dx. serve_try e req dx = run_scan e uid sid aid dx"
    using serve_try_valid[OF p] by simp
  with m a eq show ?thesis by blast
qed

lemma fallback_app_name: "app_name a = app_name b \<Longrightarrow> fallback a = fallback b"
  by (simp add: fallback_def fallback_vulnerability_def)

lemma scanResults_app_name:
  "app_name a = app_name b \<Longrightarrow> scanResults e a c = scanResults e b c"
  using fallback_app_name[of a b] by (auto simp: scanResults_def split: jsval.splits option.splits)

lemma serve_list_run:
  assumes m: "req_method req \<noteq> ''OPTIONS''"
    and st: "serve_try e req d = run_scan e uid sid aid d"
    and rows: "applications d aid = Some app" "app_user_id app = uid"
      "security_scans d sid = Some sc" "scan_application_id sc = aid"
    and ai: "fetch_completion e (build_prompt app) = Some ai" "ai_ok ai"
      "ai_content e ai = Inr content"
    and res: "scanResults e app content = results"
    and list: "get_prop results (js ''vulnerabilities'') = Inr (JArr xs)"
    and rs: "map_rows (JStr sid) xs = Inr rs"
  shows "serve e req d =
     (json_response 200 (success_payload results),
      db_write e (AppStatus (JStr aid) (js ''completed''))
        (if xs = [] then
           db_write e (ScanCompleted (JStr sid) (prop_of results (js ''overall_score''))
              (prop_of results (js ''risk_level'')) (JNum (of_nat (length xs))) (scanDuration e)
              (now_completed e))
             (db_write e (AppStatus (JStr aid) (js ''scanning''))
                (db_write e (ScanRunning (JStr sid) (now_started e)) d))
         else
           db_write e (VulnInsert rs)
             (db_write e (ScanCompleted (JStr sid) (prop_of results (js ''overall_score''))
                (prop_of results (js ''risk_level'')) (JNum (of_nat (length xs))) (scanDuration e)
                (now_completed e))
               (db_write e (AppStatus (JStr aid) (js ''scanning''))
                  (db_write e (ScanRunning (JStr sid) (now_started e)) d)))))"
proof -
  have "run_scan e uid sid aid d =
      persist_results e (JStr sid) (JStr aid) results
        (db_write e (AppStatus (JStr aid) (js ''scanning''))
           (db_write e (ScanRunning (JStr sid) (now_started e)) d))"
    unfolding run_scan_checked[OF rows] by (simp add: Let_def ai res)
  then show ?thesis
    using m st unfolding persist_list[OF list rs] by (simp add: serve_def)
qed

lemma accepted_list_run:
  assumes d': "d' = db_write e (AppStatus (JStr aid) st)
        (if xs = [] then db_write e (ScanCompleted (JStr sid) a b (JNum (of_nat (length xs))) f t)
             (db_write e (AppStatus (JStr aid) st0) (db_write e (ScanRunning (JStr sid) t0) d))
         else db_write e (VulnInsert rs)
             (db_write e (ScanCompleted (JStr sid) a b (JNum (of_nat (length xs))) f t)
               (db_write e (AppStatus (JStr aid) st0) (db_write e (ScanRunning (JStr sid) t0) d))))"
    and sc: "security_scans d sid = Some sc"
    and len: "length rs = length xs"
    and acc: "all_accepted d d'"
  shows "(\<exists>sc'. security_scans d' sid = Some sc' \<and> scan_status sc' = js ''completed'' \<and>
            scan_vulnerabilities_found sc' = JNum (of_nat (length rs))) \<and>
         vulnerabilities d' = vulnerabilities d @ rs \<and>
         writes_sent d d' =
           [ScanRunning (JStr sid) t0, AppStatus (JStr aid) st0,
            ScanCompleted (JStr sid) a b (JNum (of_nat (length xs))) f t]
           @ (if xs = [] then [] else [VulnInsert rs]) @ [AppStatus (JStr aid) st]"
proof -
  let ?d2 = "db_write e (AppStatus (JStr aid) st0) (db_write e (ScanRunning (JStr sid) t0) d)"
  let ?w = "ScanCompleted (JStr sid) a b (JNum (of_nat (length xs))) f t"
  let ?d3 = "db_write e ?w ?d2"
  have accw: "accepts e ?d2 ?w"
    using acc unfolding all_accepted_def d' by (cases "xs = []") simp_all
  obtain sc1 where "security_scans (db_write e (ScanRunning (JStr sid) t0) d) sid = Some sc1"
    using scan_kept[OF sc] by blast
  then have sc2: "security_scans ?d2 sid = Some sc1" by simp
  from scan_completed_row[OF sc2 accw] obtain sc3 where
    sc3: "security_scans ?d3 sid = Some sc3" "scan_status sc3 = js ''completed''"
      "scan_vulnerabilities_found sc3 = JNum (of_nat (length xs))"
    by blast
  have scans: "security_scans d' = security_scans ?d3"
    unfolding d' by simp
  have vulns: "vulnerabilities d' = vulnerabilities d @ rs"
  proof (cases "xs = []")
    case True
    then have "rs = []" using len by simp
    with True show ?thesis unfolding d' by simp
  next
    case False
    then have "accepts e ?d3 (VulnInsert rs)"
      using acc unfolding all_accepted_def d' by simp
    with False show ?thesis unfolding d' by (simp add: vulnerabilities_db_write)
  qed
  have sent: "writes_sent d d' =
           [ScanRunning (JStr sid) t0, AppStatus (JStr aid) st0, ?w]
           @ (if xs = [] then [] else [VulnInsert rs]) @ [AppStatus (JStr aid) st]"
    unfolding d' writes_sent_def by simp
  show ?thesis using sc3 scans vulns sent len by simp
qed

lemma all_accepted_results: "all_accepted d d' \<Longrightarrow> results_accepted d d'"
  by (auto simp: all_accepted_def results_accepted_def list_all_iff)

lemma recorded_list_run:
  assumes d': "d' = db_write e (AppStatus (JStr aid) st)
        (if xs = [] then db_write e (ScanCompleted (JStr sid) a b (JNum (of_nat (length xs))) f t)
             (db_write e (AppStatus (JStr aid) st0) (db_write e (ScanRunning (JStr sid) t0) d))
         else db_write e (VulnInsert rs)
             (db_write e (ScanCompleted (JStr sid) a b (JNum (of_nat (length xs))) f t)
               (db_write e (AppStatus (JStr aid) st0) (db_write e (ScanRunning (JStr sid) t0) d))))"
    and sc: "security_scans d sid = Some sc"
    and len: "length rs = length xs"
    and acc: "results_accepted d d'"
  shows "(\<exists>sc'. security_scans d' sid = Some sc' \<and> scan_status sc' = js ''completed'' \<and>
            scan_vulnerabilities_found sc' = JNum (of_nat (length rs))) \<and>
         vulnerabilities d' = vulnerabilities d @ rs"
proof -
  let ?d2 = "db_write e (AppStatus (JStr aid) st0) (db_write e (ScanRunning (JStr sid) t0) d)"
  let ?w = "ScanCompleted (JStr sid) a b (JNum (of_nat (length xs))) f t"
  let ?d3 = "db_write e ?w ?d2"
  have accw: "accepts e ?d2 ?w"
    using acc unfolding results_accepted_def d' by (cases "xs = []") simp_all
  obtain sc1 where "security_scans (db_write e (ScanRunning (JStr sid) t0) d) sid = Some sc1"
    using scan_kept[OF sc] by blast
  then have sc2: "security_scans ?d2 sid = Some sc1" by simp
  from scan_completed_row[OF sc2 accw] obtain sc3 where
    sc3: "security_scans ?d3 sid = Some sc3" "scan_status sc3 = js ''completed''"
      "scan_vulnerabilities_found sc3 = JNum (of_nat (length xs))"
    by blast
  have scans: "security_scans d' = security_scans ?d3"
    unfolding d' by simp
  have vulns: "vulnerabilities d' = vulnerabilities d @ rs"
  proof (cases "xs = []")
    case True
    then have "rs = []" using len by simp
    with True show ?thesis unfolding d' by simp
  next
    case False
    then have "accepts e ?d3 (VulnInsert rs)"
      using acc unfolding results_accepted_def d' by simp
    with False show ?thesis unfolding d' by (simp add: vulnerabilities_db_write)
  qed
  show ?thesis using sc3 scans vulns len by simp
qed

lemma get_prop_total:
  "v \<noteq> JNull \<Longrightarrow> v \<noteq> JUndefined \<Longrightarrow> get_prop v k = Inr (prop_of v k)"
  by (cases v) (auto simp: prop_of_def)

lemma vulnerability_row_total:
  "v \<noteq> JNull \<Longrightarrow> v \<noteq> JUndefined \<Longrightarrow> \<exists>r. vulnerability_row sid v = Inr r"
  by (simp add: vulnerability_row_def bind_exn_def get_prop_total del: get_prop.simps)

lemma map_rows_total:
  "JNull \<notin> set xs \<Longrightarrow> JUndefined \<notin> set xs \<Longrightarrow> \<exists>rows. map_rows sid xs = Inr rows"
proof (induction xs)
  case Nil
  show ?case by simp
next
  case (Cons v vs)
  then obtain rows where "map_rows sid vs = Inr rows" by auto
  moreover from Cons.prems obtain r where "vulnerability_row sid v = Inr r"
    using vulnerability_row_total[of v sid] by auto
  ultimately show ?case by (simp add: bind_exn_def)
qed

lemma app_status_row:
  "accepts e d (AppStatus aid st) \<Longrightarrow> row_of (applications d) aid \<noteq> None \<Longrightarrow>
   map_option app_status (row_of (applications (db_write e (AppStatus aid st) d)) aid) = Some st"
  by (auto simp: db_write_def row_of_def split: jsval.splits)

lemma scan_completed_row_of:
  "accepts e d (ScanCompleted sid a b (JNum n) f t) \<Longrightarrow> row_of (security_scans d) sid \<noteq> None \<Longrightarrow>
   map_option scan_status
     (row_of (security_scans (db_write e (ScanCompleted sid a b (JNum n) f t) d)) sid)
       = Some (js ''completed'') \<and>
   map_option scan_vulnerabilities_found
     (row_of (security_scans (db_write e (ScanCompleted sid a b (JNum n) f t) d)) sid)
       = Some (JNum n)"
  by (auto simp: db_write_def row_of_def patch_def split: jsval.splits)

lemma persisted_state:
  assumes d': "d' = db_write e (AppStatus aid st)
        (if c then db_write e (ScanCompleted sid a b (JNum n) f t) d
         else db_write e (VulnInsert rs) (db_write e (ScanCompleted sid a b (JNum n) f t) d))"
  shows "writes_sent d d' =
           ScanCompleted sid a b (JNum n) f t # (if c then [] else [VulnInsert rs]) @ [AppStatus aid st]"
    and "taken d d' (ScanCompleted sid a b (JNum n) f t) \<Longrightarrow> row_of (security_scans d) sid \<noteq> None \<Longrightarrow>
           map_option scan_status (row_of (security_scans d') sid) = Some (js ''completed'') \<and>
           map_option scan_vulnerabilities_found (row_of (security_scans d') sid) = Some (JNum n)"
    and "taken d d' (AppStatus aid st) \<Longrightarrow> row_of (applications d) aid \<noteq> None \<Longrightarrow>
           map_option app_status (row_of (applications d') aid) = Some st"
    and "vulnerabilities d' =
           (if taken d d' (VulnInsert rs) then vulnerabilities d @ rs else vulnerabilities d)"
proof -
  let ?w = "ScanCompleted sid a b (JNum n) f t"
  let ?d1 = "db_write e ?w d"
  let ?d2 = "if c then ?d1 else db_write e (VulnInsert rs) ?d1"
  show "writes_sent d d' = ?w # (if c then [] else [VulnInsert rs]) @ [AppStatus aid st]"
    unfolding d' writes_sent_def by simp
  have tw: "taken d d' ?w \<longleftrightarrow> accepts e d ?w"
    unfolding d' taken_def by auto
  have ti: "taken d d' (VulnInsert rs) \<longleftrightarrow> \<not> c \<and> accepts e ?d1 (VulnInsert rs)"
    unfolding d' taken_def by auto
  have ta: "taken d d' (AppStatus aid st) \<longleftrightarrow> accepts e ?d2 (AppStatus aid st)"
    unfolding d' taken_def by auto
  have scans: "security_scans d' = security_scans ?d1"
    unfolding d' by simp
  have apps: "applications ?d2 = applications d"
    by simp
  show "vulnerabilities d' =
           (if taken d d' (VulnInsert rs) then vulnerabilities d @ rs else vulnerabilities d)"
    unfolding ti unfolding d' by (simp add: vulnerabilities_db_write)
  {
    assume "taken d d' ?w" and "row_of (security_scans d) sid \<noteq> None"
    then show "map_option scan_status (row_of (security_scans d') sid) = Some (js ''completed'') \<and>
           map_option scan_vulnerabilities_found (row_of (security_scans d') sid) = Some (JNum n)"
      unfolding tw scans by (rule scan_completed_row_of)
  }
  {
    assume "taken d d' (AppStatus aid st)" and "row_of (applications d) aid \<noteq> None"
    then have "accepts e ?d2 (AppStatus aid st)" "row_of (applications ?d2) aid \<noteq> None"
      unfolding ta apps by simp_all
    then have "map_option app_status
        (row_of (applications (db_write e (AppStatus aid st) ?d2)) aid) = Some st"
      by (rule app_status_row)
    then show "map_option app_status (row_of (applications d') aid) = Some st"
      unfolding d' .
  }
qed

lemma app_kept:
  "applications d s = Some a \<Longrightarrow>
   \<exists>a'. applications (db_write e w d) s = Some a' \<and> app_user_id a' = app_user_id a \<and>
     build_prompt a' = build_prompt a \<and> app_name a' = app_name a"
  using app_fixed_db_write[of e w d s] by (cases "applications (db_write e w d) s") auto

lemma app_kept_run:
  assumes "applications d aid = Some a"
  shows "\<exists>a'. applications
           (db_write e w5 (if c then db_write e w3 (db_write e w2 (db_write e w1 d))
              else db_write e w4 (db_write e w3 (db_write e w2 (db_write e w1 d))))) aid = Some a' \<and>
         app_user_id a' = app_user_id a \<and> build_prompt a' = build_prompt a \<and>
         app_name a' = app_name a"
proof -
  from app_kept[OF assms, of e w1] obtain a1 where
    a1: "applications (db_write e w1 d) aid = Some a1" "app_user_id a1 = app_user_id a"
      "build_prompt a1 = build_prompt a" "app_name a1 = app_name a" by blast
  from app_kept[OF a1(1), of e w2] a1 obtain a2 where
    a2: "applications (db_write e w2 (db_write e w1 d)) aid = Some a2" "app_user_id a2 = app_user_id a"
      "build_prompt a2 = build_prompt a" "app_name a2 = app_name a" by auto
  from app_kept[OF a2(1), of e w3] a2 obtain a3 where
    a3: "applications (db_write e w3 (db_write e w2 (db_write e w1 d))) aid = Some a3"
      "app_user_id a3 = app_user_id a" "build_prompt a3 = build_prompt a" "app_name a3 = app_name a"
    by auto
  from app_kept[OF a3(1), of e w4] a3 obtain a4 where
    a4: "applications (db_write e w4 (db_write e w3 (db_write e w2 (db_write e w1 d)))) aid = Some a4"
      "app_user_id a4 = app_user_id a" "build_prompt a4 = build_prompt a" "app_name a4 = app_name a"
    by auto
  show ?thesis
  proof (cases c)
    case True
    with app_kept[OF a3(1), of e w5] a3 show ?thesis by auto
  next
    case False
    with app_kept[OF a4(1), of e w5] a4 show ?thesis by auto
  qed
qed

lemma scan_kept_run:
  assumes "security_scans d sid = Some s"
  shows "\<exists>s'. security_scans
           (db_write e w5 (if c then db_write e w3 (db_write e w2 (db_write e w1 d))
              else db_write e w4 (db_write e w3 (db_write e w2 (db_write e w1 d))))) sid = Some s' \<and>
         scan_application_id s' = scan_application_id s"
proof -
  from scan_kept[OF assms, of e w1] obtain s1 where
    s1: "security_scans (db_write e w1 d) sid = Some s1"
      "scan_application_id s1 = scan_application_id s" by blast
  from scan_kept[OF s1(1), of e w2] s1 obtain s2 where
    s2: "security_scans (db_write e w2 (db_write e w1 d)) sid = Some s2"
      "scan_application_id s2 = scan_application_id s" by auto
  from scan_kept[OF s2(1), of e w3] s2 obtain s3 where
    s3: "security_scans (db_write e w3 (db_write e w2 (db_write e w1 d))) sid = Some s3"
      "scan_application_id s3 = scan_application_id s" by auto
  from scan_kept[OF s3(1), of e w4] s3 obtain s4 where
    s4: "security_scans (db_write e w4 (db_write e w3 (db_write e w2 (db_write e w1 d)))) sid = Some s4"
      "scan_application_id s4 = scan_application_id s" by auto
  show ?thesis
  proof (cases c)
    case True
    with scan_kept[OF s3(1), of e w5] s3 show ?thesis by auto
  next
    case False
    with scan_kept[OF s4(1), of e w5] s4 show ?thesis by auto
  qed
qed


lemma unparseable_part_000:
  assumes m: "req_method req \<noteq> ''OPTIONS''"
    and body: "JSON_parse e (req_body req) = Some body"
      "get_prop body (js ''scanId'') = Inr scanId"
      "get_prop body (js ''applicationId'') = Inr applicationId"
    and app: "row_of (applications d) applicationId = Some app"
    and ai: "fetch_completion e (build_prompt app) = Some ai" "ai_ok ai"
      "ai_content e ai = Inr content"
    and bad: "case content of JStr c \<Rightarrow> JSON_parse e (trim (jsonStr c)) = None | _ \<Rightarrow> True"
  shows "fst (serve_part_000 e req d) = json_response 200 (success_payload (fallback app))"
proof -
  obtain rs where rs: "map_rows scanId [fallback_vulnerability app] = Inr rs"
    using fallback_rows by blast
  show ?thesis
    using m body app ai
    by (simp add: serve_part_000_def serve_try_part_000_def run_scan_part_000_def Let_def
        scanResults_unparseable[OF bad] persist_list[OF fallback_list rs])
qed

section \<open>Unfolding the handler on an example\<close>

lemmas handler_defs =
  serve_def serve_try_def run_scan_def serve_part_000_def serve_try_part_000_def
  run_scan_part_000_def persist_results_def mark_completed_def scan_update_def
  has_vulnerabilities_def vulnerabilitiesToInsert_def vulnerability_row_def scanResults_def
  ai_content_def build_prompt_def db_write_def requestSchema_safeParse_def uuid_field_def
  bind_exn_def json_response_def success_payload_def error_payload_def fallback_def
  fallback_vulnerability_def invalid_request_def scan_failed_response_def scan_failed_def
  exn_message_def row_of_def patch_def scanDuration_def or_default_def nao_fornecida_def
  nao_especificada_def preflight_def

lemmas text_defs =
  js_def jsonStr_def jsonMatch_def json_fence_re_def any_fence_re_def fence_def trim_def
  is_ws_def

lemmas backend_defs =
  uuid_shape_def is_hex_def vulnerability_ok_def not_null_def enum_column_def cvss_column_def
  int_column_def score_column_def

lemmas example_defs =
  example_env_def answering_env_def example_request_def post_request_def example_db_def body_text_def
  body_json_def example_scan_def example_application_def completion_json_def
  completion_text_def user_a_def user_b_def app_a_def app_b_def scan_a_def scan_b_def

section \<open>The facts of the example request\<close>

lemma example_auth:
  "req_method example_request \<noteq> ''OPTIONS''"
  "req_authorization example_request = Some (js ''Bearer token-a'')"
  "js ''Bearer token-a'' \<noteq> []"
  "auth_getUser (answering_env content parses)
     (replace_first (js ''Bearer '') [] (js ''Bearer token-a'')) = Some user_a"
  by (simp_all add: example_request_def post_request_def answering_env_def example_env_def js_def)

lemma example_body:
  "JSON_parse (answering_env content parses) (req_body example_request) = Some (body_json scan_a app_a)"
  "requestSchema_safeParse (answering_env content parses) (body_json scan_a app_a) = Inr (scan_a, app_a)"
  by (simp_all add: answering_env_def example_env_def example_request_def post_request_def
      requestSchema_safeParse_def uuid_field_def body_json_def uuid_shape_def is_hex_def
      scan_a_def app_a_def js_def)

lemma example_rows:
  "applications example_db app_a = Some (example_application user_a (js ''Shop''))"
  "app_user_id (example_application user_a (js ''Shop'')) = user_a"
  "security_scans example_db scan_a = Some (example_scan app_a)"
  "scan_application_id (example_scan app_a) = app_a"
  by (simp_all add: example_db_def example_application_def example_scan_def app_a_def app_b_def
      scan_a_def scan_b_def js_def)

lemma example_answer:
  "fetch_completion (answering_env content parses) p
     = Some \<lparr>ai_ok = True, ai_status = 200, ai_body = completion_text content\<rparr>"
  "ai_ok \<lparr>ai_ok = True, ai_status = 200, ai_body = completion_text content\<rparr>"
  "ai_content (answering_env content parses)
     \<lparr>ai_ok = True, ai_status = 200, ai_body = completion_text content\<rparr> = Inr (JStr content)"
  by (simp_all add: answering_env_def example_env_def ai_content_def completion_json_def
      bind_exn_def body_text_def completion_text_def js_def)


section \<open>The count of a scan and the rows of its vulnerabilities\<close>

lemma capitalised_run:
  "(case serve capitalised_env example_request example_db of
      (resp, d') \<Rightarrow>
        resp = json_response 200 (success_payload capitalised_results) \<and>
        map_option scan_status (security_scans d' scan_a) = Some (js ''completed'') \<and>
        map_option scan_vulnerabilities_found (security_scans d' scan_a) = Some (JNum 1) \<and>
        vulnerabilities d' = [])"
  by (simp add: handler_defs text_defs backend_defs example_defs capitalised_env_def
      capitalised_text_def capitalised_results_def)

text \<open>
  Claim C1, as the specification states it: after every successful invocation the
  \<^verbatim>\<open>vulnerabilities_found\<close> of the scan equals the number of vulnerability rows
  inserted for it, also when the insert fails after the scan update went through. The
  handler does not do that. Here the model names a severity \<^verbatim>\<open>"High"\<close>; the backend
  takes the update of the scan and refuses the insert, the handler answers with success,
  and the scan is completed with a count of one while the scan has no vulnerability row.
\<close>

theorem found_without_rows:
  "resp_status (fst (serve capitalised_env example_request example_db)) = 200 \<and>
   resp_body (fst (serve capitalised_env example_request example_db))
     = Some (success_payload capitalised_results) \<and>
   map_option scan_vulnerabilities_found
     (security_scans (snd (serve capitalised_env example_request example_db)) scan_a)
     = Some (JNum 1) \<and>
   vulnerabilities (snd (serve capitalised_env example_request example_db)) = []"
  using capitalised_run by (simp add: case_prod_beta json_response_def)

text \<open>
  Claim C1, amended: after every successful invocation whose result holds a list of
  vulnerabilities, and whose update of the scan with the result and insert of the
  vulnerabilities the backend took, the scan that the request names is completed and its
  \<^verbatim>\<open>vulnerabilities_found\<close> equals the number of vulnerability rows the invocation
  inserted, each of them a row of that scan.
\<close>

theorem vulnerabilities_found_matches_inserted:
  assumes run: "serve e req d = (resp, d')"
    and ok: "resp_status resp = 200" and body: "resp_body resp = Some (success_payload results)"
    and list: "get_prop results (js ''vulnerabilities'') = Inr (JArr xs)"
    and acc: "results_accepted d d'"
  shows "\<exists>kvs sid sc rows.
     JSON_parse e (req_body req) = Some (JObj kvs) \<and>
     map_of kvs (js ''scanId'') = Some (JStr sid) \<and>
     security_scans d' sid = Some sc \<and> scan_status sc = js ''completed'' \<and>
     scan_vulnerabilities_found sc = JNum (of_nat (length rows)) \<and>
     vulnerabilities d' = vulnerabilities d @ rows \<and>
     (\<forall>r\<in>set rows. vuln_scan_id r = JStr sid)"
proof -
  from serve_success_state[OF run ok body list] obtain uid sid aid app sc rows w b where
    b: "JSON_parse e (req_body req) = Some b" "requestSchema_safeParse e b = Inr (sid, aid)" and
    sc: "security_scans d sid = Some sc" and
    rows: "map_rows (JStr sid) xs = Inr rows" and
    w: "w = ScanCompleted (JStr sid) (prop_of results (js ''overall_score''))
           (prop_of results (js ''risk_level'')) (JNum (of_nat (length xs))) (scanDuration e)
           (now_completed e)" and
    d': "d' = db_write e (AppStatus (JStr aid) (js ''completed''))
            (if xs = [] then
               db_write e w (db_write e (AppStatus (JStr aid) (js ''scanning''))
                 (db_write e (ScanRunning (JStr sid) (now_started e)) d))
             else
               db_write e (VulnInsert rows)
                 (db_write e w (db_write e (AppStatus (JStr aid) (js ''scanning''))
                   (db_write e (ScanRunning (JStr sid) (now_started e)) d))))"
    by blast
  from b(2) obtain kvs where kvs: "b = JObj kvs" "map_of kvs (js ''scanId'') = Some (JStr sid)"
    unfolding safeParse_Inr by blast
  have len: "length rows = length xs" using map_rows_length[OF rows] .
  from recorded_list_run[OF d'[unfolded w] sc len acc] map_rows_scan_id[OF rows] b(1) kvs
  show ?thesis by auto
qed

lemma refusal_run:
  "(case serve refusal_env example_request example_db of
      (resp, d') \<Rightarrow>
        resp = json_response 200 (success_payload (fallback (example_application user_a (js ''Shop'')))) \<and>
        all_accepted example_db d' \<and>
        writes_sent example_db d' =
          [ScanRunning (JStr scan_a) (js ''2025-01-01T10:00:00.000Z''),
           AppStatus (JStr app_a) (js ''scanning''),
           ScanCompleted (JStr scan_a) (JNum 50) (JStr (js ''medium'')) (JNum 1) (JNum 60)
             (js ''2025-01-01T10:00:07.000Z''),
           VulnInsert (vulnerabilities d'),
           AppStatus (JStr app_a) (js ''completed'')] \<and>
        length (vulnerabilities d') = 1)"
  by (simp add: handler_defs text_defs backend_defs example_defs refusal_env_def
      all_accepted_def writes_sent_def)

theorem vulnerabilities_found_matches_inserted_witness:
  "\<exists>kvs sc rows.
     JSON_parse refusal_env (req_body example_request) = Some (JObj kvs) \<and>
     map_of kvs (js ''scanId'') = Some (JStr scan_a) \<and>
     security_scans (snd (serve refusal_env example_request example_db)) scan_a = Some sc \<and>
     scan_status sc = js ''completed'' \<and>
     scan_vulnerabilities_found sc = JNum (of_nat (length rows)) \<and>
     vulnerabilities (snd (serve refusal_env example_request example_db)) = rows"
proof -
  let ?run = "serve refusal_env example_request example_db"
  let ?app = "example_application user_a (js ''Shop'')"
  have run: "?run = (fst ?run, snd ?run)" by simp
  have ok: "resp_status (fst ?run) = 200"
    using refusal_run by (simp add: case_prod_beta json_response_def)
  have body: "resp_body (fst ?run) = Some (success_payload (fallback ?app))"
    using refusal_run by (simp add: case_prod_beta json_response_def)
  have acc: "results_accepted example_db (snd ?run)"
    using refusal_run by (simp add: case_prod_beta all_accepted_results)
  have req: "JSON_parse refusal_env (req_body example_request) = Some (body_json scan_a app_a)"
    by (simp add: refusal_env_def answering_env_def example_env_def example_request_def
        post_request_def)
  from vulnerabilities_found_matches_inserted[OF run ok body fallback_list acc] req
  show ?thesis by (auto simp: example_db_def body_json_def)
qed

text \<open>
  Why the result has to hold a list: the length of anything else is whatever the model
  wrote. Here it is an object with the length -3; every write is taken, the response is
  the success payload, and the count of the scan is -3.
\<close>

lemma no_list_run:
  "(case serve no_list_env example_request example_db of
      (resp, d') \<Rightarrow>
        resp = json_response 200 (success_payload no_list_results) \<and>
        all_accepted example_db d' \<and>
        map_option scan_vulnerabilities_found (security_scans d' scan_a) = Some (JNum (- 3)) \<and>
        vulnerabilities d' = [])"
  by (simp add: handler_defs text_defs backend_defs example_defs no_list_env_def
      no_list_text_def no_list_results_def all_accepted_def)

text \<open>
  Why the update of the scan has to be taken too: here the score is 101. The backend
  refuses the update that completes the scan and takes the insert; the response is the
  success payload, one row is stored, and the scan is still \<^verbatim>\<open>running\<close> with the
  count it had.
\<close>

lemma over_score_run:
  "(case serve over_score_env example_request example_db of
      (resp, d') \<Rightarrow>
        resp = json_response 200 (success_payload over_score_results) \<and>
        \<not> results_accepted example_db d' \<and>
        map_option scan_status (security_scans d' scan_a) = Some (js ''running'') \<and>
        map_option scan_vulnerabilities_found (security_scans d' scan_a) = Some (JNum 0) \<and>
        length (vulnerabilities d') = 1)"
  by (simp add: handler_defs text_defs backend_defs example_defs over_score_env_def
      over_score_text_def over_score_results_def results_accepted_def)

section \<open>The object inside a fence\<close>

text \<open>
  Claim C6, as the specification states it: whenever the content wraps a JSON object in
  triple-backtick fences, the embedded object is what gets parsed. The lazy group of the
  regular expression ends at the first closing fence, so an object that holds three
  backticks itself is cut short: the parser is handed the text up to them, which is no
  JSON, and the result is the fallback, although the parser would have taken the object.
\<close>

theorem fenced_object_cut_short:
  \<open>trim (jsonStr backtick_content) = js ''{"note":"'' \<and>
   JSON_parse backtick_env backtick_object = Some (JObj [(js ''note'', JStr fence)]) \<and>
   scanResults backtick_env (example_application user_a (js ''Shop'')) (JStr backtick_content)
     = fallback (example_application user_a (js ''Shop''))\<close>
  by (simp add: scanResults_def text_defs backtick_content_def backtick_object_def
      backtick_env_def example_defs)

text \<open>
  Claim C6, amended: let the text \<open>b\<close> of an object (it starts with a brace, ends with
  a brace and holds no three backticks in a row) stand between an opening and a closing
  fence, white space around it. If the opening fence is tagged \<^verbatim>\<open>json\<close> and no
  tagged fence starts before it, \<open>b\<close> is what the parser gets, whatever other fences
  precede it; if the fence is untagged, nothing before it holds a backtick and the content
  holds no tagged fence, \<open>b\<close> is what the parser gets; and a content without any fence
  is handed to the parser as it is, trimmed. The result is the parsed value, or the
  fallback when the parser throws.
\<close>

theorem fenced_object_extracted:
  assumes ws: "list_all is_ws ws1" "list_all is_ws ws2"
    and obj: "b \<noteq> []" "hd b = 123" "last b = 125" "\<not> contains fence b"
  shows "(\<not> contains (fence @ js ''json'') (pre @ butlast (fence @ js ''json'')) \<longrightarrow>
            scanResults e app (JStr (pre @ fence @ js ''json'' @ ws1 @ b @ ws2 @ fence @ post))
              = (case JSON_parse e b of Some v \<Rightarrow> v | None \<Rightarrow> fallback app)) \<and>
         (96 \<notin> set pre \<and>
          \<not> contains (fence @ js ''json'') (pre @ fence @ ws1 @ b @ ws2 @ fence @ post) \<longrightarrow>
            scanResults e app (JStr (pre @ fence @ ws1 @ b @ ws2 @ fence @ post))
              = (case JSON_parse e b of Some v \<Rightarrow> v | None \<Rightarrow> fallback app)) \<and>
         (\<not> contains fence c \<longrightarrow>
            scanResults e app (JStr c)
              = (case JSON_parse e (trim c) of Some v \<Rightarrow> v | None \<Rightarrow> fallback app))"
proof -
  have t: "trim b = b"
    using obj by (intro trim_id) (auto simp: is_ws_def)
  show ?thesis
    using jsonStr_tagged[OF _ ws obj, of pre post] jsonStr_untagged[OF _ _ ws obj, of pre post]
      jsonStr_raw[of c] t
    by (simp add: scanResults_def)
qed

theorem fenced_object_extracted_witness:
  "scanResults fenced_env (example_application user_a (js ''Shop'')) (JStr fenced_content)
     = fenced_results"
proof -
  have ws: "list_all is_ws [10]" by (simp add: is_ws_def)
  have obj: "fenced_object \<noteq> []" "hd fenced_object = 123" "last fenced_object = 125"
    "\<not> contains fence fenced_object"
    by (simp_all add: fenced_object_def js_def fence_def)
  have tag: "\<not> contains (fence @ js ''json'') ([] @ butlast (fence @ js ''json''))"
    by (simp add: js_def fence_def)
  have p: "JSON_parse fenced_env fenced_object = Some fenced_results"
    by (simp add: fenced_env_def answering_env_def example_env_def fenced_object_def
        fenced_content_def completion_text_def body_text_def js_def fence_def scan_a_def app_a_def)
  from fenced_object_extracted[OF ws ws obj, of "[]" fenced_env
      "example_application user_a (js ''Shop'')" "[]" "[]"] tag p
  show ?thesis by (simp add: fenced_content_def)
qed

section \<open>An answer that is no JSON\<close>

text \<open>
  Claim C5: when a request has passed the checks, the completion API has answered with
  success, and the content of its first choice is a text the parser throws on after the
  fences are stripped (or is no text at all), the handler takes the fixed fallback, with
  the score 50, the risk level \<^verbatim>\<open>medium\<close> and exactly one vulnerability, and
  answers with the success payload that holds it.
\<close>

theorem unparseable_answer_falls_back:
  assumes m: "req_method req \<noteq> ''OPTIONS''"
    and auth: "req_authorization req = Some h" "h \<noteq> []"
      "auth_getUser e (replace_first (js ''Bearer '') [] h) = Some uid"
    and body: "JSON_parse e (req_body req) = Some body"
      "requestSchema_safeParse e body = Inr (sid, aid)"
    and rows: "applications d aid = Some app" "app_user_id app = uid"
      "security_scans d sid = Some sc" "scan_application_id sc = aid"
    and ai: "fetch_completion e (build_prompt app) = Some ai" "ai_ok ai"
      "ai_content e ai = Inr content"
    and bad: "case content of JStr c \<Rightarrow> JSON_parse e (trim (jsonStr c)) = None | _ \<Rightarrow> True"
  shows "fst (serve e req d) = json_response 200 (success_payload (fallback app)) \<and>
         get_prop (fallback app) (js ''overall_score'') = Inr (JNum 50) \<and>
         get_prop (fallback app) (js ''risk_level'') = Inr (JStr (js ''medium'')) \<and>
         get_prop (fallback app) (js ''vulnerabilities'') = Inr (JArr [fallback_vulnerability app])"
proof -
  obtain rs where rs: "map_rows (JStr sid) [fallback_vulnerability app] = Inr rs"
    using fallback_rows by blast
  have "fst (run_scan e uid sid aid d) = Return (json_response 200 (success_payload (fallback app)))"
    unfolding run_scan_checked[OF rows]
    by (simp add: Let_def ai scanResults_unparseable[OF bad] persist_list[OF fallback_list rs])
  then have "fst (serve e req d) = json_response 200 (success_payload (fallback app))"
    unfolding serve_valid[OF m auth body] by (simp add: case_prod_beta)
  then show ?thesis by (simp add: fallback_def js_def)
qed

theorem unparseable_answer_falls_back_witness:
  "fst (serve refusal_env example_request example_db)
     = json_response 200 (success_payload (fallback (example_application user_a (js ''Shop''))))"
proof -
  have bad: "case JStr (js ''I cannot analyze this.'') of
      JStr c \<Rightarrow> JSON_parse refusal_env (trim (jsonStr c)) = None | _ \<Rightarrow> True"
    by (simp add: refusal_env_def answering_env_def example_env_def text_defs body_text_def
        completion_text_def)
  let ?c = "js ''I cannot analyze this.''"
  from unparseable_answer_falls_back[OF
      example_auth(1-3) example_auth(4)[of ?c "[]", folded refusal_env_def]
      example_body[of ?c "[]", folded refusal_env_def]
      example_rows
      example_answer(1)[of ?c "[]", folded refusal_env_def] example_answer(2)
      example_answer(3)[of ?c "[]", folded refusal_env_def]
      bad]
  show ?thesis by simp
qed

section \<open>A body of the wrong shape\<close>

lemma three_ids_run:
  "(case serve three_ids_env (post_request (Some (js ''Bearer token-a'')) three_ids_text) example_db of
      (resp, d') \<Rightarrow>
        resp = json_response 200 (success_payload (fallback (example_application user_a (js ''Shop'')))) \<and>
        writes_sent example_db d' =
          [ScanRunning (JStr scan_a) (js ''2025-01-01T10:00:00.000Z''),
           AppStatus (JStr app_a) (js ''scanning''),
           ScanCompleted (JStr scan_a) (JNum 50) (JStr (js ''medium'')) (JNum 1) (JNum 60)
             (js ''2025-01-01T10:00:07.000Z''),
           VulnInsert (vulnerabilities d'),
           AppStatus (JStr app_a) (js ''completed'')])"
  by (simp add: handler_defs text_defs backend_defs example_defs three_ids_env_def three_ids_text_def
      three_ids_json_def writes_sent_def)

text \<open>
  Claim C9, as the specification states it: an authenticated request whose body does not
  consist of exactly the two well-formed identifiers is rejected with the status 400. The
  object schema drops the keys it does not know: a body with a third identifier passes
  the validation, and the scan runs to its end.
\<close>

theorem third_identifier_accepted:
  "requestSchema_safeParse three_ids_env three_ids_json = Inr (scan_a, app_a) \<and>
   resp_status
     (fst (serve three_ids_env (post_request (Some (js ''Bearer token-a'')) three_ids_text)
        example_db)) = 200 \<and>
   length (writes_sent example_db
     (snd (serve three_ids_env (post_request (Some (js ''Bearer token-a'')) three_ids_text)
        example_db))) = 5"
  using three_ids_run
  by (simp add: case_prod_beta json_response_def requestSchema_safeParse_def uuid_field_def
      three_ids_json_def three_ids_env_def example_env_def uuid_shape_def is_hex_def scan_a_def
      app_a_def js_def)

text \<open>
  Claim C9, amended: an authenticated request whose body is JSON, but no object that holds
  a well-formed \<^verbatim>\<open>scanId\<close> and a well-formed \<^verbatim>\<open>applicationId\<close> (other keys
  do not count), is answered with the status 400 and the issues of the validation library:
  when the body is an object, one issue for each of the two fields that is missing or not
  well formed, and for no other, \<^verbatim>\<open>scanId\<close> first, each naming its field in its
  path; when the body is no object, one issue with the empty path. Nothing is written.
\<close>

theorem invalid_body_rejected:
  assumes m: "req_method req \<noteq> ''OPTIONS''"
    and auth: "req_authorization req = Some h" "h \<noteq> []"
      "auth_getUser e (replace_first (js ''Bearer '') [] h) = Some uid"
    and body: "JSON_parse e (req_body req) = Some body"
    and bad: "\<not> (\<exists>kvs. body = JObj kvs \<and> well_formed e kvs (js ''scanId'') \<and>
        well_formed e kvs (js ''applicationId''))"
  shows "serve e req d =
       (json_response 400
          (JObj [(js ''error'', JStr (js ''Invalid request parameters'')),
                 (js ''details'', JArr (map issue_json
                    (case body of
                       JObj kvs \<Rightarrow>
                         map (violation kvs)
                           (filter (\<lambda>k. \<not> well_formed e kvs k)
                              [js ''scanId'', js ''applicationId''])
                     | _ \<Rightarrow> [Invalid_type (js ''object'') (getParsedType body) []])))]), d)"
proof -
  obtain issues where i: "requestSchema_safeParse e body = Inl issues"
  proof (cases "requestSchema_safeParse e body")
    case (Inl issues)
    then show ?thesis using that by blast
  next
    case (Inr p)
    with bad safeParse_well_formed show ?thesis by blast
  qed
  have "serve e req d = (invalid_request issues, d)"
    using m auth body i by (simp add: serve_def serve_try_def)
  then show ?thesis unfolding safeParse_Inl[OF i] by (simp add: invalid_request_def)
qed

theorem invalid_body_rejected_witness:
  "serve short_id_env (post_request (Some (js ''Bearer token-a'')) short_id_text) example_db =
     (json_response 400
        (JObj [(js ''error'', JStr (js ''Invalid request parameters'')),
               (js ''details'',
                JArr [JObj [(js ''validation'', JStr (js ''uuid'')),
                            (js ''code'', JStr (js ''invalid_string'')),
                            (js ''message'', JStr (js ''Invalid uuid'')),
                            (js ''path'', JArr [JStr (js ''scanId'')])],
                      JObj [(js ''code'', JStr (js ''invalid_type'')),
                            (js ''expected'', JStr (js ''string'')),
                            (js ''received'', JStr (js ''undefined'')),
                            (js ''path'', JArr [JStr (js ''applicationId'')]),
                            (js ''message'', JStr (js ''Required''))]])]), example_db)"
proof -
  let ?req = "post_request (Some (js ''Bearer token-a'')) short_id_text"
  let ?kvs = "[(js ''scanId'', JStr (js ''42''))]"
  have m: "req_method ?req \<noteq> ''OPTIONS''" "req_authorization ?req = Some (js ''Bearer token-a'')"
    "js ''Bearer token-a'' \<noteq> []"
    by (simp_all add: post_request_def js_def)
  have u: "auth_getUser short_id_env (replace_first (js ''Bearer '') [] (js ''Bearer token-a''))
      = Some user_a"
    by (simp add: short_id_env_def example_env_def js_def)
  have b: "JSON_parse short_id_env (req_body ?req) = Some (JObj ?kvs)"
    by (simp add: short_id_env_def example_env_def post_request_def)
  have wf: "\<not> well_formed short_id_env ?kvs (js ''scanId'')"
    "\<not> well_formed short_id_env ?kvs (js ''applicationId'')"
    by (simp_all add: well_formed_def short_id_env_def example_env_def uuid_shape_def js_def)
  then have bad: "\<not> (\<exists>kvs. JObj ?kvs = JObj kvs \<and> well_formed short_id_env kvs (js ''scanId'') \<and>
        well_formed short_id_env kvs (js ''applicationId''))"
    by simp
  have v: "violation ?kvs (js ''scanId'') = Invalid_uuid [js ''scanId'']"
    "violation ?kvs (js ''applicationId'')
       = Invalid_type (js ''string'') (js ''undefined'') [js ''applicationId'']"
    by (simp_all add: violation_def js_def)
  have msg: "invalid_type_message (js ''string'') (js ''undefined'') = js ''Required''"
    by (simp add: invalid_type_message_def)
  from invalid_body_rejected[OF m u b bad, of example_db] show ?thesis
    by (simp add: wf v msg)
qed


section \<open>Writes before the checks\<close>

lemma foreign_scan_run:
  "(case serve (asking_env scan_b app_b)
           (post_request (Some (js ''Bearer token-a'')) (body_text scan_b app_b)) example_db of
      (resp, d') \<Rightarrow>
        resp = json_response 403
                 (error_payload (js ''You do not have permission to scan this application'')) \<and>
        journal d' = [(ScanRunning (JStr scan_b) (js ''2025-01-01T10:00:00.000Z''), True)] \<and>
        map_option scan_status (security_scans d' scan_b) = Some (js ''running'') \<and>
        map_option scan_started_at (security_scans d' scan_b)
          = Some (Some (js ''2025-01-01T10:00:00.000Z'')))"
  by (simp add: handler_defs text_defs backend_defs example_defs asking_env_def)

text \<open>
  Claim C2: no write is made before all six checks of the request have passed. The code
  marks the scan \<^verbatim>\<open>running\<close> right after the validation of the body, before it
  looks at the application, its owner and the scan. Here user A names the scan and the
  application of user B: the answer is 403, and the scan of user B has been marked
  \<^verbatim>\<open>running\<close> and stamped with a start time.
\<close>

theorem scan_marked_running_before_checks:
  "resp_status
     (fst (serve (asking_env scan_b app_b)
        (post_request (Some (js ''Bearer token-a'')) (body_text scan_b app_b)) example_db)) = 403 \<and>
   writes_sent example_db
     (snd (serve (asking_env scan_b app_b)
        (post_request (Some (js ''Bearer token-a'')) (body_text scan_b app_b)) example_db))
     = [ScanRunning (JStr scan_b) (js ''2025-01-01T10:00:00.000Z'')] \<and>
   map_option scan_status (security_scans example_db scan_b) = Some (js ''pending'') \<and>
   map_option scan_status
     (security_scans
        (snd (serve (asking_env scan_b app_b)
           (post_request (Some (js ''Bearer token-a'')) (body_text scan_b app_b)) example_db))
        scan_b) = Some (js ''running'') \<and>
   map_option scan_started_at
     (security_scans
        (snd (serve (asking_env scan_b app_b)
           (post_request (Some (js ''Bearer token-a'')) (body_text scan_b app_b)) example_db))
        scan_b) = Some (Some (js ''2025-01-01T10:00:00.000Z''))"
  using foreign_scan_run
  by (simp add: case_prod_beta json_response_def writes_sent_def example_db_def example_scan_def
      scan_a_def scan_b_def js_def)

lemma mismatched_scan_run:
  "(case serve (asking_env scan_b app_a)
           (post_request (Some (js ''Bearer token-a'')) (body_text scan_b app_a)) example_db of
      (resp, d') \<Rightarrow>
        resp = json_response 400 (error_payload (js ''Invalid scan request'')) \<and>
        journal d' = [(ScanRunning (JStr scan_b) (js ''2025-01-01T10:00:00.000Z''), True)] \<and>
        map_option scan_status (security_scans d' scan_b) = Some (js ''running'') \<and>
        map_option app_status (applications d' app_a) = Some (js ''pending''))"
  by (simp add: handler_defs text_defs backend_defs example_defs asking_env_def)

text \<open>
  Claim C4: a request whose scan belongs to another application than the one it names is
  rejected with a validation error, and neither the status of the scan nor that of the
  application is changed. The code answers 400 and leaves the application alone, but the
  scan has been marked \<^verbatim>\<open>running\<close> before the check is made. Here user A names
  the own application A and the scan B of the application of user B.
\<close>

theorem mismatched_scan_marked_running:
  "resp_status
     (fst (serve (asking_env scan_b app_a)
        (post_request (Some (js ''Bearer token-a'')) (body_text scan_b app_a)) example_db)) = 400 \<and>
   map_option scan_application_id (security_scans example_db scan_b) = Some app_b \<and>
   map_option scan_status (security_scans example_db scan_b) = Some (js ''pending'') \<and>
   map_option scan_status
     (security_scans
        (snd (serve (asking_env scan_b app_a)
           (post_request (Some (js ''Bearer token-a'')) (body_text scan_b app_a)) example_db))
        scan_b) = Some (js ''running'') \<and>
   map_option app_status
     (applications
        (snd (serve (asking_env scan_b app_a)
           (post_request (Some (js ''Bearer token-a'')) (body_text scan_b app_a)) example_db))
        app_a) = Some (js ''pending'')"
  using mismatched_scan_run
  by (simp add: case_prod_beta json_response_def example_db_def example_scan_def
      scan_a_def scan_b_def js_def)

section \<open>A request without a credential\<close>

lemma anonymous_run_part_000:
  "(case serve_part_000 refusal_env (post_request None (body_text scan_a app_a)) example_db of
      (resp, d') \<Rightarrow>
        resp = json_response 200 (success_payload (fallback (example_application user_a (js ''Shop'')))) \<and>
        writes_sent example_db d' =
          [ScanRunning (JStr scan_a) (js ''2025-01-01T10:00:00.000Z''),
           AppStatus (JStr app_a) (js ''scanning''),
           ScanCompleted (JStr scan_a) (JNum 50) (JStr (js ''medium'')) (JNum 1) (JNum 60)
             (js ''2025-01-01T10:00:07.000Z''),
           VulnInsert (vulnerabilities d'),
           AppStatus (JStr app_a) (js ''completed'')] \<and>
        all_accepted example_db d' \<and> length (vulnerabilities d') = 1)"
  by (simp add: handler_defs text_defs backend_defs example_defs refusal_env_def
      all_accepted_def writes_sent_def)

text \<open>
  Claim C3: a request with a missing or invalid credential is answered with 401 and
  nothing is written. The handler of \<^verbatim>\<open>index.ts\<close> does that
  (\<open>serve_unauthenticated\<close> above). The earlier variant of the handler never reads the
  header: a request without one runs the whole scan.
\<close>

theorem part_000_reads_no_credential:
  "req_authorization (post_request None (body_text scan_a app_a)) = None \<and>
   resp_status
     (fst (serve_part_000 refusal_env (post_request None (body_text scan_a app_a)) example_db))
     = 200 \<and>
   length (writes_sent example_db
     (snd (serve_part_000 refusal_env (post_request None (body_text scan_a app_a)) example_db)))
     = 5 \<and>
   length (vulnerabilities
     (snd (serve_part_000 refusal_env (post_request None (body_text scan_a app_a)) example_db)))
     = 1"
  using anonymous_run_part_000
  by (simp add: case_prod_beta json_response_def post_request_def)

section \<open>A completion call that fails\<close>

lemma failed_completion_run:
  "(case serve failing_env example_request example_db of
      (resp, d') \<Rightarrow>
        resp = json_response 500
          (JObj [(js ''error'', JStr scan_failed),
                 (js ''errorId'', JStr (js ''e7e7e7e7-3333-4333-8333-33333333333a''))]) \<and>
        map_option scan_status (security_scans d' scan_a) = Some (js ''running'') \<and>
        map_option app_status (applications d' app_a) = Some (js ''scanning''))"
  by (simp add: handler_defs text_defs backend_defs example_defs failing_env_def)

lemma failed_completion_run_part_000:
  "(case serve_part_000 failing_env example_request example_db of
      (resp, d') \<Rightarrow>
        resp = json_response 500 (error_payload (js ''AI API error: 429'')) \<and>
        map_option scan_status (security_scans d' scan_a) = Some (js ''running'') \<and>
        map_option app_status (applications d' app_a) = Some (js ''scanning''))"
  by (simp add: handler_defs text_defs backend_defs example_defs failing_env_def)

text \<open>
  Claim C7: when the completion API answers with a status that is no success, the caller
  gets a generic message and a correlation identifier, no diagnostic text, and the scan
  and the application stay \<^verbatim>\<open>running\<close> and \<^verbatim>\<open>scanning\<close>. The handler of
  \<^verbatim>\<open>index.ts\<close> does that (\<open>serve_completion_failed\<close> and \<open>started_rows\<close>
  above). The earlier variant throws an error that names the status of the completion
  API, and its \<^verbatim>\<open>catch\<close> sends the message of the error as the payload, with no
  identifier.
\<close>

theorem part_000_sends_error_message:
  "fst (serve_part_000 failing_env example_request example_db)
     = json_response 500 (JObj [(js ''error'', JStr (js ''AI API error: 429''))]) \<and>
   fst (serve failing_env example_request example_db)
     = json_response 500
         (JObj [(js ''error'', JStr scan_failed),
                (js ''errorId'', JStr (js ''e7e7e7e7-3333-4333-8333-33333333333a''))])"
  using failed_completion_run_part_000 failed_completion_run
  by (simp add: case_prod_beta error_payload_def)

section \<open>A second invocation for a completed scan\<close>

text \<open>
  Claim C8: the handler is not idempotent. When an invocation has succeeded with a
  list of vulnerabilities that is not empty, a second invocation with the same request,
  answered by the collaborators as the first was, finds the scan \<^verbatim>\<open>completed\<close>,
  sends the same writes again and returns the same response; where the backend takes the
  writes of both, the rows of the scan are there twice.
\<close>

theorem second_run_inserts_again:
  assumes run1: "serve e req d0 = (resp, d1)"
    and ok: "resp_status resp = 200" and body: "resp_body resp = Some (success_payload results)"
    and list: "get_prop results (js ''vulnerabilities'') = Inr (JArr xs)" and ne: "xs \<noteq> []"
    and run2: "serve e req d1 = (resp2, d2)"
    and acc: "all_accepted d0 d1" "all_accepted d1 d2"
  shows "\<exists>sid sc rows.
     security_scans d1 sid = Some sc \<and> scan_status sc = js ''completed'' \<and>
     rows \<noteq> [] \<and> (\<forall>r\<in>set rows. vuln_scan_id r = JStr sid) \<and>
     vulnerabilities d1 = vulnerabilities d0 @ rows \<and>
     resp2 = resp \<and>
     writes_sent d1 d2 = writes_sent d0 d1 \<and>
     vulnerabilities d2 = vulnerabilities d0 @ rows @ rows"
proof -
  from serve_success_path[OF run1 ok body] obtain uid sid aid app sc ai content where
    m: "req_method req \<noteq> ''OPTIONS''" and
    st: "\<And>dx. serve_try e req dx = run_scan e uid sid aid dx" and
    a: "applications d0 aid = Some app" "app_user_id app = uid" and
    s: "security_scans d0 sid = Some sc" "scan_application_id sc = aid" and
    ai: "fetch_completion e (build_prompt app) = Some ai" "ai_ok ai"
      "ai_content e ai = Inr content" and
    res: "scanResults e app content = results"
    by blast
  have "\<exists>d'. serve_try e req d0 = (Return resp, d')"
    using run1 m ok by (auto simp: serve_def scan_failed_response_def json_response_def
        split: prod.splits outcome.splits)
  then obtain dp where "run_scan e uid sid aid d0 = (Return resp, dp)" using st by auto
  from run_scan_success[OF this ok] a s res ai obtain pr where
    "persist_results e (JStr sid) (JStr aid) results
       (db_write e (AppStatus (JStr aid) (js ''scanning''))
          (db_write e (ScanRunning (JStr sid) (now_started e)) d0)) = (Return resp, pr)"
    by auto
  from persist_Return_list[OF this list] obtain rows where
    rows: "map_rows (JStr sid) xs = Inr rows" by blast
  have len: "length rows = length xs" using map_rows_length[OF rows] .
  have rne: "rows \<noteq> []" using len ne by auto
  have r1: "resp = json_response 200 (success_payload results)"
    and d1: "d1 = db_write e (AppStatus (JStr aid) (js ''completed''))
      (if xs = [] then
         db_write e (ScanCompleted (JStr sid) (prop_of results (js ''overall_score''))
            (prop_of results (js ''risk_level'')) (JNum (of_nat (length xs))) (scanDuration e)
            (now_completed e))
           (db_write e (AppStatus (JStr aid) (js ''scanning''))
              (db_write e (ScanRunning (JStr sid) (now_started e)) d0))
       else
         db_write e (VulnInsert rows)
           (db_write e (ScanCompleted (JStr sid) (prop_of results (js ''overall_score''))
              (prop_of results (js ''risk_level'')) (JNum (of_nat (length xs))) (scanDuration e)
              (now_completed e))
             (db_write e (AppStatus (JStr aid) (js ''scanning''))
                (db_write e (ScanRunning (JStr sid) (now_started e)) d0))))"
    using serve_list_run[OF m st a s ai res list rows] run1 by simp_all
  from app_kept_run[OF a(1)] obtain app1 where
    a1: "applications d1 aid = Some app1" "app_user_id app1 = uid"
      "build_prompt app1 = build_prompt app" "app_name app1 = app_name app"
    unfolding d1 using a(2) by blast
  from scan_kept_run[OF s(1)] obtain sc1 where
    s1: "security_scans d1 sid = Some sc1" "scan_application_id sc1 = aid"
    unfolding d1 using s(2) by blast
  have res1: "scanResults e app1 content = results"
    using scanResults_app_name[OF a1(4)] res by simp
  have r2: "resp2 = json_response 200 (success_payload results)"
    and d2: "d2 = db_write e (AppStatus (JStr aid) (js ''completed''))
      (if xs = [] then
         db_write e (ScanCompleted (JStr sid) (prop_of results (js ''overall_score''))
            (prop_of results (js ''risk_level'')) (JNum (of_nat (length xs))) (scanDuration e)
            (now_completed e))
           (db_write e (AppStatus (JStr aid) (js ''scanning''))
              (db_write e (ScanRunning (JStr sid) (now_started e)) d1))
       else
         db_write e (VulnInsert rows)
           (db_write e (ScanCompleted (JStr sid) (prop_of results (js ''overall_score''))
              (prop_of results (js ''risk_level'')) (JNum (of_nat (length xs))) (scanDuration e)
              (now_completed e))
             (db_write e (AppStatus (JStr aid) (js ''scanning''))
                (db_write e (ScanRunning (JStr sid) (now_started e)) d1))))"
    using serve_list_run[OF m st a1(1,2) s1 ai[folded a1(3)] res1 list rows] run2 by simp_all
  note f1 = accepted_list_run[OF d1 s(1) len acc(1)]
  note f2 = accepted_list_run[OF d2 s1(1) len acc(2)]
  show ?thesis
    using f1 f2 r1 r2 rne map_rows_scan_id[OF rows] by auto
qed

lemma refusal_rerun:
  "(case serve refusal_env example_request (snd (serve refusal_env example_request example_db)) of
      (resp, d') \<Rightarrow>
        all_accepted (snd (serve refusal_env example_request example_db)) d' \<and>
        length (vulnerabilities d') = 2)"
  by (simp add: handler_defs text_defs backend_defs example_defs refusal_env_def
      all_accepted_def)

theorem second_run_inserts_again_witness:
  "\<exists>sid sc rows.
     security_scans (snd (serve refusal_env example_request example_db)) sid = Some sc \<and>
     scan_status sc = js ''completed'' \<and> rows \<noteq> [] \<and>
     vulnerabilities (snd (serve refusal_env example_request example_db)) = rows \<and>
     vulnerabilities
       (snd (serve refusal_env example_request
          (snd (serve refusal_env example_request example_db)))) = rows @ rows"
proof -
  let ?run1 = "serve refusal_env example_request example_db"
  let ?run2 = "serve refusal_env example_request (snd ?run1)"
  let ?app = "example_application user_a (js ''Shop'')"
  have run1: "?run1 = (fst ?run1, snd ?run1)" and run2: "?run2 = (fst ?run2, snd ?run2)"
    by simp_all
  have ok: "resp_status (fst ?run1) = 200"
    and body: "resp_body (fst ?run1) = Some (success_payload (fallback ?app))"
    and acc1: "all_accepted example_db (snd ?run1)"
    using refusal_run by (simp_all add: case_prod_beta json_response_def)
  have acc2: "all_accepted (snd ?run1) (snd ?run2)"
    using refusal_rerun by (simp add: case_prod_beta)
  have ne: "[fallback_vulnerability ?app] \<noteq> []" by simp
  from second_run_inserts_again[OF run1 ok body fallback_list ne run2 acc1 acc2]
  show ?thesis by (auto simp: example_db_def)
qed

text \<open>The earlier variant runs a second time in the same way.\<close>

lemma part_000_rerun:
  "length (vulnerabilities
     (snd (serve_part_000 refusal_env example_request
        (snd (serve_part_000 refusal_env example_request example_db))))) = 2"
  by (simp add: handler_defs text_defs backend_defs example_defs refusal_env_def)

section \<open>The outcome of the insert\<close>

lemma null_entry_run:
  "(case serve null_entry_env example_request example_db of
      (resp, d') \<Rightarrow>
        resp = json_response 500
                 (JObj [(js ''error'', JStr scan_failed),
                        (js ''errorId'', JStr (js ''e7e7e7e7-3333-4333-8333-33333333333a''))]) \<and>
        all_accepted example_db d' \<and>
        writes_sent example_db d' =
          [ScanRunning (JStr scan_a) (js ''2025-01-01T10:00:00.000Z''),
           AppStatus (JStr app_a) (js ''scanning''),
           ScanCompleted (JStr scan_a) (JNum 40) (JStr (js ''high'')) (JNum 1) (JNum 60)
             (js ''2025-01-01T10:00:07.000Z'')] \<and>
        map_option scan_status (security_scans d' scan_a) = Some (js ''completed'') \<and>
        map_option scan_vulnerabilities_found (security_scans d' scan_a) = Some (JNum 1) \<and>
        map_option app_status (applications d' app_a) = Some (js ''scanning'') \<and>
        vulnerabilities d' = [])"
  by (simp add: handler_defs text_defs backend_defs example_defs null_entry_env_def
      null_entry_text_def null_entry_results_def all_accepted_def writes_sent_def)

text \<open>The earlier variant ends the same way.\<close>

lemma null_entry_run_part_000:
  "(case serve_part_000 null_entry_env example_request example_db of
      (resp, d') \<Rightarrow>
        resp_status resp = 500 \<and>
        length (writes_sent example_db d') = 3 \<and>
        map_option scan_status (security_scans d' scan_a) = Some (js ''completed'') \<and>
        map_option app_status (applications d' app_a) = Some (js ''scanning'') \<and>
        vulnerabilities d' = [])"
  by (simp add: handler_defs text_defs backend_defs example_defs null_entry_env_def
      null_entry_text_def null_entry_results_def writes_sent_def)


text \<open>
  Claim C10, as the specification states it: for every run that reaches the persistence
  phase the application is marked \<^verbatim>\<open>completed\<close> and the handler returns a success
  payload, whatever the insert does. A run whose list of vulnerabilities holds
  \<^verbatim>\<open>null\<close> reaches the phase and does neither: the update that completes the scan
  with the count 1 is sent and taken, the read of \<^verbatim>\<open>vuln.severity\<close> throws while the
  rows are built (lines 234 to 236), no insert and no update of the application follow, the
  response has the status 500 and the application stays \<^verbatim>\<open>scanning\<close>.
\<close>

theorem null_entry_leaves_scanning:
  "fst (serve null_entry_env example_request example_db)
     = json_response 500
         (JObj [(js ''error'', JStr scan_failed),
                (js ''errorId'', JStr (js ''e7e7e7e7-3333-4333-8333-33333333333a''))]) \<and>
   writes_sent example_db (snd (serve null_entry_env example_request example_db)) =
     [ScanRunning (JStr scan_a) (js ''2025-01-01T10:00:00.000Z''),
      AppStatus (JStr app_a) (js ''scanning''),
      ScanCompleted (JStr scan_a) (JNum 40) (JStr (js ''high'')) (JNum 1) (JNum 60)
        (js ''2025-01-01T10:00:07.000Z'')] \<and>
   all_accepted example_db (snd (serve null_entry_env example_request example_db)) \<and>
   map_option scan_status
     (security_scans (snd (serve null_entry_env example_request example_db)) scan_a)
     = Some (js ''completed'') \<and>
   map_option app_status
     (applications (snd (serve null_entry_env example_request example_db)) app_a)
     = Some (js ''scanning'')"
  using null_entry_run by (simp add: case_prod_beta)

text \<open>
  Claim C10, amended: for every run that reaches the persistence phase with a result whose
  vulnerabilities are a list that holds no \<^verbatim>\<open>null\<close>, the response and the writes do
  not depend on what the backend answers to any write, the insert among them. The update
  that completes the scan with the length of the list is sent first, then the insert of
  one row per entry (none at all when the list is empty), then the update that completes
  the application, and the success payload is returned. Where the backend takes the update
  of the scan, the row of the scan holds \<^verbatim>\<open>completed\<close> and that count; where it takes
  the update of the application, the row of the application holds \<^verbatim>\<open>completed\<close>;
  the rows of the insert are stored where the backend takes it and not otherwise.
\<close>

theorem insert_outcome_ignored:
  assumes list: "get_prop results (js ''vulnerabilities'') = Inr (JArr xs)"
    and entries: "JNull \<notin> set xs" "JUndefined \<notin> set xs"
  shows "\<exists>rows. map_rows scanId xs = Inr rows \<and> length rows = length xs \<and>
     (\<forall>acc.
       (case persist_results (e\<lparr>accepts := acc\<rparr>) scanId applicationId results d of
          (out, d') \<Rightarrow>
            out = Return (json_response 200 (success_payload results)) \<and>
            writes_sent d d' =
              ScanCompleted scanId (prop_of results (js ''overall_score''))
                (prop_of results (js ''risk_level'')) (JNum (of_nat (length xs))) (scanDuration e)
                (now_completed e)
              # (if xs = [] then [] else [VulnInsert rows])
              @ [AppStatus applicationId (js ''completed'')] \<and>
            (taken d d'
               (ScanCompleted scanId (prop_of results (js ''overall_score''))
                  (prop_of results (js ''risk_level'')) (JNum (of_nat (length xs)))
                  (scanDuration e) (now_completed e)) \<and>
             row_of (security_scans d) scanId \<noteq> None \<longrightarrow>
               map_option scan_status (row_of (security_scans d') scanId)
                 = Some (js ''completed'') \<and>
               map_option scan_vulnerabilities_found (row_of (security_scans d') scanId)
                 = Some (JNum (of_nat (length xs)))) \<and>
            (taken d d' (AppStatus applicationId (js ''completed'')) \<and>
             row_of (applications d) applicationId \<noteq> None \<longrightarrow>
               map_option app_status (row_of (applications d') applicationId)
                 = Some (js ''completed'')) \<and>
            vulnerabilities d' =
              (if taken d d' (VulnInsert rows) then vulnerabilities d @ rows
               else vulnerabilities d)))"
proof -
  from map_rows_total[OF entries] obtain rows where rows: "map_rows scanId xs = Inr rows"
    by blast
  have len: "length rows = length xs" using map_rows_length[OF rows] .
  have "case persist_results (e\<lparr>accepts := acc\<rparr>) scanId applicationId results d of
          (out, d') \<Rightarrow>
            out = Return (json_response 200 (success_payload results)) \<and>
            writes_sent d d' =
              ScanCompleted scanId (prop_of results (js ''overall_score''))
                (prop_of results (js ''risk_level'')) (JNum (of_nat (length xs))) (scanDuration e)
                (now_completed e)
              # (if xs = [] then [] else [VulnInsert rows])
              @ [AppStatus applicationId (js ''completed'')] \<and>
            (taken d d'
               (ScanCompleted scanId (prop_of results (js ''overall_score''))
                  (prop_of results (js ''risk_level'')) (JNum (of_nat (length xs)))
                  (scanDuration e) (now_completed e)) \<and>
             row_of (security_scans d) scanId \<noteq> None \<longrightarrow>
               map_option scan_status (row_of (security_scans d') scanId)
                 = Some (js ''completed'') \<and>
               map_option scan_vulnerabilities_found (row_of (security_scans d') scanId)
                 = Some (JNum (of_nat (length xs)))) \<and>
            (taken d d' (AppStatus applicationId (js ''completed'')) \<and>
             row_of (applications d) applicationId \<noteq> None \<longrightarrow>
               map_option app_status (row_of (applications d') applicationId)
                 = Some (js ''completed'')) \<and>
            vulnerabilities d' =
              (if taken d d' (VulnInsert rows) then vulnerabilities d @ rows
               else vulnerabilities d)" for acc
  proof -
    let ?e = "e\<lparr>accepts := acc\<rparr>"
    have same: "scanDuration ?e = scanDuration e" "now_completed ?e = now_completed e"
      by (simp_all add: scanDuration_def)
    note st = persisted_state[OF refl, where e = ?e and aid = applicationId
        and st = "js ''completed''" and c = "xs = []" and sid = scanId
        and a = "prop_of results (js ''overall_score'')"
        and b = "prop_of results (js ''risk_level'')" and n = "of_nat (length xs)"
        and f = "scanDuration e" and t = "now_completed e" and d = d and rs = rows]
    show ?thesis
      unfolding persist_list[OF list rows] same
      using st by simp
  qed
  with rows len show ?thesis by blast
qed

lemma refused_insert_run:
  "(case persist_results (refusal_env\<lparr>accepts := refusing_inserts\<rparr>) (JStr scan_a) (JStr app_a)
          (fallback (example_application user_a (js ''Shop''))) example_db of
      (out, d') \<Rightarrow>
        taken example_db d'
          (ScanCompleted (JStr scan_a)
             (prop_of (fallback (example_application user_a (js ''Shop''))) (js ''overall_score''))
             (prop_of (fallback (example_application user_a (js ''Shop''))) (js ''risk_level''))
             (JNum (of_nat (length [fallback_vulnerability (example_application user_a (js ''Shop''))])))
             (scanDuration refusal_env) (now_completed refusal_env)) \<and>
        taken example_db d' (AppStatus (JStr app_a) (js ''completed'')) \<and>
        (\<forall>rows. \<not> taken example_db d' (VulnInsert rows)))"
  by (simp add: handler_defs text_defs backend_defs example_defs refusal_env_def taken_def
      refusing_inserts_def prop_of_def)

theorem insert_outcome_ignored_witness:
  "fst (persist_results (refusal_env\<lparr>accepts := refusing_inserts\<rparr>) (JStr scan_a) (JStr app_a)
          (fallback (example_application user_a (js ''Shop''))) example_db)
     = Return (json_response 200
         (success_payload (fallback (example_application user_a (js ''Shop''))))) \<and>
   map_option scan_status
     (security_scans
        (snd (persist_results (refusal_env\<lparr>accepts := refusing_inserts\<rparr>) (JStr scan_a)
           (JStr app_a) (fallback (example_application user_a (js ''Shop''))) example_db)) scan_a)
     = Some (js ''completed'') \<and>
   map_option scan_vulnerabilities_found
     (security_scans
        (snd (persist_results (refusal_env\<lparr>accepts := refusing_inserts\<rparr>) (JStr scan_a)
           (JStr app_a) (fallback (example_application user_a (js ''Shop''))) example_db)) scan_a)
     = Some (JNum 1) \<and>
   map_option app_status
     (applications
        (snd (persist_results (refusal_env\<lparr>accepts := refusing_inserts\<rparr>) (JStr scan_a)
           (JStr app_a) (fallback (example_application user_a (js ''Shop''))) example_db)) app_a)
     = Some (js ''completed'') \<and>
   vulnerabilities
     (snd (persist_results (refusal_env\<lparr>accepts := refusing_inserts\<rparr>) (JStr scan_a) (JStr app_a)
          (fallback (example_application user_a (js ''Shop''))) example_db)) = []"
proof -
  let ?app = "example_application user_a (js ''Shop'')"
  have entries: "JNull \<notin> set [fallback_vulnerability ?app]"
    "JUndefined \<notin> set [fallback_vulnerability ?app]"
    by (simp_all add: fallback_vulnerability_def)
  have empty: "vulnerabilities example_db = []"
    by (simp add: example_db_def)
  from insert_outcome_ignored[OF fallback_list entries, where scanId = "JStr scan_a"
      and e = refusal_env and applicationId = "JStr app_a" and d = example_db]
  obtain rows where
    "\<forall>acc. case persist_results (refusal_env\<lparr>accepts := acc\<rparr>) (JStr scan_a) (JStr app_a)
          (fallback ?app) example_db of
        (out, d') \<Rightarrow>
          out = Return (json_response 200 (success_payload (fallback ?app))) \<and>
          writes_sent example_db d' =
            ScanCompleted (JStr scan_a) (prop_of (fallback ?app) (js ''overall_score''))
              (prop_of (fallback ?app) (js ''risk_level''))
              (JNum (of_nat (length [fallback_vulnerability ?app]))) (scanDuration refusal_env)
              (now_completed refusal_env)
            # (if [fallback_vulnerability ?app] = [] then [] else [VulnInsert rows])
            @ [AppStatus (JStr app_a) (js ''completed'')] \<and>
          (taken example_db d'
             (ScanCompleted (JStr scan_a) (prop_of (fallback ?app) (js ''overall_score''))
                (prop_of (fallback ?app) (js ''risk_level''))
                (JNum (of_nat (length [fallback_vulnerability ?app])))
                (scanDuration refusal_env) (now_completed refusal_env)) \<and>
           row_of (security_scans example_db) (JStr scan_a) \<noteq> None \<longrightarrow>
             map_option scan_status (row_of (security_scans d') (JStr scan_a))
               = Some (js ''completed'') \<and>
             map_option scan_vulnerabilities_found (row_of (security_scans d') (JStr scan_a))
               = Some (JNum (of_nat (length [fallback_vulnerability ?app])))) \<and>
          (taken example_db d' (AppStatus (JStr app_a) (js ''completed'')) \<and>
           row_of (applications example_db) (JStr app_a) \<noteq> None \<longrightarrow>
             map_option app_status (row_of (applications d') (JStr app_a))
               = Some (js ''completed'')) \<and>
          vulnerabilities d' =
            (if taken example_db d' (VulnInsert rows) then vulnerabilities example_db @ rows
             else vulnerabilities example_db)"
    by blast
  from this[THEN spec, of refusing_inserts] refused_insert_run
  show ?thesis
    by (simp add: case_prod_beta row_of_def example_rows empty)
qed

end
